theory Spec2Isabelle
  imports Complex_Main
begin

section \<open>JavaScript numbers\<close>

text \<open>
  The script computes with JavaScript numbers. They are modelled as exact reals
  extended with the three non-finite values a division by zero can produce, so
  that \<open>x / 0\<close> is not silently a number. Overflow to infinity and the sign of
  zero are not modelled: a zero divisor counts as \<open>+0\<close>. Rounding is modelled
  where a result depends on it, in the frame index of a pass (\<open>tick_with\<close>).
\<close>

datatype jsnum = Fin real | PInf | NInf | NaN

fun js_neg :: "jsnum \<Rightarrow> jsnum" where
  "js_neg (Fin x) = Fin (- x)"
| "js_neg PInf = NInf"
| "js_neg NInf = PInf"
| "js_neg NaN = NaN"

fun js_add :: "jsnum \<Rightarrow> jsnum \<Rightarrow> jsnum" where
  "js_add NaN b = NaN"
| "js_add a NaN = NaN"
| "js_add (Fin x) (Fin y) = Fin (x + y)"
| "js_add (Fin x) b = b"
| "js_add a (Fin y) = a"
| "js_add PInf PInf = PInf"
| "js_add NInf NInf = NInf"
| "js_add PInf NInf = NaN"
| "js_add NInf PInf = NaN"

definition js_sub :: "jsnum \<Rightarrow> jsnum \<Rightarrow> jsnum" where
  "js_sub a b = js_add a (js_neg b)"

text \<open>The sign of \<open>\<plusminus>Infinity * x\<close> and of \<open>x / 0\<close> for a finite \<open>x\<close>.\<close>

definition signed_inf :: "real \<Rightarrow> jsnum" where
  "signed_inf x = (if x = 0 then NaN else if 0 < x then PInf else NInf)"

fun js_mul :: "jsnum \<Rightarrow> jsnum \<Rightarrow> jsnum" where
  "js_mul NaN b = NaN"
| "js_mul a NaN = NaN"
| "js_mul (Fin x) (Fin y) = Fin (x * y)"
| "js_mul (Fin x) PInf = signed_inf x"
| "js_mul (Fin x) NInf = signed_inf (- x)"
| "js_mul PInf (Fin y) = signed_inf y"
| "js_mul NInf (Fin y) = signed_inf (- y)"
| "js_mul PInf PInf = PInf"
| "js_mul NInf NInf = PInf"
| "js_mul PInf NInf = NInf"
| "js_mul NInf PInf = NInf"

fun js_div :: "jsnum \<Rightarrow> jsnum \<Rightarrow> jsnum" where
  "js_div NaN b = NaN"
| "js_div a NaN = NaN"
| "js_div (Fin x) (Fin y) = (if y = 0 then signed_inf x else Fin (x / y))"
| "js_div (Fin x) b = Fin 0"
| "js_div PInf (Fin y) = (if 0 \<le> y then PInf else NInf)"
| "js_div NInf (Fin y) = (if 0 \<le> y then NInf else PInf)"
| "js_div a b = NaN"

text \<open>\<open>%\<close> is the remainder of the division truncated towards zero: it has the
  sign of the dividend.\<close>

definition js_trunc :: "real \<Rightarrow> int" where
  "js_trunc x = (if 0 \<le> x then \<lfloor>x\<rfloor> else \<lceil>x\<rceil>)"

fun js_rem :: "jsnum \<Rightarrow> jsnum \<Rightarrow> jsnum" where
  "js_rem (Fin x) (Fin y) =
     (if y = 0 then NaN else Fin (x - y * of_int (js_trunc (x / y))))"
| "js_rem (Fin x) PInf = Fin x"
| "js_rem (Fin x) NInf = Fin x"
| "js_rem a b = NaN"

fun js_floor :: "jsnum \<Rightarrow> jsnum" where
  "js_floor (Fin x) = Fin (of_int \<lfloor>x\<rfloor>)"
| "js_floor a = a"

fun js_max :: "jsnum \<Rightarrow> jsnum \<Rightarrow> jsnum" where
  "js_max NaN b = NaN"
| "js_max a NaN = NaN"
| "js_max PInf b = PInf"
| "js_max a PInf = PInf"
| "js_max NInf b = b"
| "js_max a NInf = a"
| "js_max (Fin x) (Fin y) = Fin (max x y)"

fun js_le :: "jsnum \<Rightarrow> jsnum \<Rightarrow> bool" where
  "js_le NaN b = False"
| "js_le a NaN = False"
| "js_le NInf b = True"
| "js_le a PInf = True"
| "js_le (Fin x) (Fin y) = (x \<le> y)"
| "js_le a b = False"

fun js_lt :: "jsnum \<Rightarrow> jsnum \<Rightarrow> bool" where
  "js_lt NaN b = False"
| "js_lt a NaN = False"
| "js_lt (Fin x) (Fin y) = (x < y)"
| "js_lt PInf b = False"
| "js_lt a NInf = False"
| "js_lt a b = True"

text \<open>A number in a condition: \<open>0\<close> and \<open>NaN\<close> are falsy.\<close>

fun js_truthy :: "jsnum \<Rightarrow> bool" where
  "js_truthy (Fin x) = (x \<noteq> 0)"
| "js_truthy NaN = False"
| "js_truthy a = True"

fun is_finite :: "jsnum \<Rightarrow> bool" where
  "is_finite (Fin x) = True"
| "is_finite a = False"

section \<open>State and configuration\<close>

definition simDuration :: real where
  "simDuration = 60"

definition traceLen :: real where
  "traceLen = 100"

definition colors :: "string list" where
  "colors = [''#1f77b4'', ''#d62728'', ''#2ca02c'', ''#17becf'', ''#9467bd'',
             ''#e377c2'', ''#bcbd22'']"

text \<open>The payload \<open>animation_data\<close> of a successful response: the number of bodies,
  the spatial bound and one coordinate vector per frame.\<close>

record animData =
  n :: nat
  limit :: real
  positions :: "real list list"

text \<open>The object \<open>state\<close>. \<open>animData = None\<close> is the initial \<open>null\<close>.
  The field \<open>animId\<close>, the handle of the last scheduled pass, is written by
  \<open>animate\<close> and never read; it is left out.\<close>

record state =
  animData :: "animData option"
  isPlaying :: bool
  frameIdx :: jsnum
  playStartTime :: jsnum

definition init_state :: state where
  "init_state = \<lparr>animData = None, isPlaying = False, frameIdx = Fin 0,
                 playStartTime = Fin 0\<rparr>"

section \<open>Playback clock\<close>

text \<open>The state update of one pass of \<open>animate\<close> at \<open>Date.now() = now\<close>: the
  frame index is recomputed from the clock while playing with a dataset.\<close>

definition tick :: "real \<Rightarrow> state \<Rightarrow> state" where
  "tick now s =
     (case animData s of
        None \<Rightarrow> s
      | Some d \<Rightarrow>
          if isPlaying s then
            (let elapsed = js_div (js_sub (Fin now) (playStartTime s)) (Fin 1000);
                 progress = js_rem (js_div elapsed (Fin simDuration)) (Fin 1)
             in s\<lparr>frameIdx :=
                    js_floor (js_mul progress (Fin (real (length (positions d)))))\<rparr>)
          else s)"

text \<open>The value of \<open>x % 1\<close> for a finite \<open>x\<close>.\<close>

definition rem1 :: "real \<Rightarrow> real" where
  "rem1 x = x - of_int (js_trunc x)"

text \<open>The script computes in double precision: the result of every \<open>-\<close>, \<open>/\<close> and
  \<open>*\<close> is rounded, while \<open>%\<close> and \<open>Math.floor\<close> are exact. \<open>tick_with rd\<close> is the
  same update with every rounded result passed through \<open>rd\<close>; \<open>tick\<close> is the instance
  that does not round.\<close>

fun js_round :: "(real \<Rightarrow> real) \<Rightarrow> jsnum \<Rightarrow> jsnum" where
  "js_round rd (Fin x) = Fin (rd x)"
| "js_round rd a = a"

definition tick_with :: "(real \<Rightarrow> real) \<Rightarrow> real \<Rightarrow> state \<Rightarrow> state" where
  "tick_with rd now s =
     (case animData s of
        None \<Rightarrow> s
      | Some d \<Rightarrow>
          if isPlaying s then
            (let elapsed =
                   js_round rd
                     (js_div (js_round rd (js_sub (Fin now) (playStartTime s))) (Fin 1000));
                 progress = js_rem (js_round rd (js_div elapsed (Fin simDuration))) (Fin 1)
             in s\<lparr>frameIdx :=
                    js_floor
                      (js_round rd (js_mul progress (Fin (real (length (positions d))))))\<rparr>)
          else s)"

text \<open>Rounding to the nearest double, ties to the even significand: \<open>binade x\<close> is
  the exponent \<open>e\<close> with \<open>2^e \<le> |x| < 2^(e+1)\<close>, and a double has 52 binary digits
  below its leading one (below \<open>2^-1022\<close> the spacing stays \<open>2^-1074\<close>). The results
  beyond the largest double, which the script rounds to an infinity, are left out.\<close>

fun bits :: "nat \<Rightarrow> nat" where
  "bits k = (if k = 0 then 0 else Suc (bits (k div 2)))"

declare bits.simps [simp del]

definition binade :: "real \<Rightarrow> int" where
  "binade x = (if 1 \<le> \<bar>x\<bar> then int (bits (nat \<lfloor>\<bar>x\<bar>\<rfloor>)) - 1
               else - int (bits (nat \<lceil>1 / \<bar>x\<bar>\<rceil> - 1)))"

definition pow2 :: "int \<Rightarrow> real" where
  "pow2 k = (if 0 \<le> k then 2 ^ nat k else 1 / 2 ^ nat (- k))"

definition round_even :: "real \<Rightarrow> int" where
  "round_even y =
     (let f = \<lfloor>y\<rfloor>; r = y - of_int f
      in if r < 1 / 2 then f else if 1 / 2 < r then f + 1 else if even f then f else f + 1)"

definition round64 :: "real \<Rightarrow> real" where
  "round64 x =
     (if x = 0 then 0
      else let u = pow2 (max (binade x) (- 1022) - 52) in of_int (round_even (x / u)) * u)"

text \<open>The play/pause listener once a dataset is loaded: resuming moves the playback
  origin back by the current progress, then the flag is flipped.\<close>

definition toggle :: "real \<Rightarrow> animData \<Rightarrow> state \<Rightarrow> state" where
  "toggle now d s =
     (let s1 =
        (if \<not> isPlaying s then
           (let currentProg =
                  js_div (frameIdx s) (Fin (real (length (positions d)) - 1))
            in s\<lparr>playStartTime :=
                   js_sub (Fin now)
                     (js_mul (js_mul currentProg (Fin simDuration)) (Fin 1000))\<rparr>)
         else s)
      in s1\<lparr>isPlaying := \<not> isPlaying s1\<rparr>)"

text \<open>The state update of the reset listener.\<close>

definition reset :: "real \<Rightarrow> state \<Rightarrow> state" where
  "reset now s =
     (let s1 = s\<lparr>frameIdx := Fin 0\<rparr>
      in if isPlaying s1 then s1\<lparr>playStartTime := Fin now\<rparr> else s1)"

text \<open>The state update of the success handler of a run, \<open>data\<close> being the field
  \<open>animation_data\<close> of the payload (\<open>None\<close> when the payload has none).\<close>

definition load :: "real \<Rightarrow> animData option \<Rightarrow> state \<Rightarrow> state" where
  "load now data s =
     s\<lparr>animData := data, frameIdx := Fin 0, isPlaying := True,
       playStartTime := Fin now\<rparr>"

section \<open>Drawing\<close>

text \<open>The calls a drawing pass makes on the 2D context of its canvas, in order.
  \<open>Arc cx cy r\<close> is the full circle \<open>arc(cx, cy, r, 0, Math.PI * 2)\<close>.\<close>

datatype cmd =
    Save
  | Restore
  | FillStyle string
  | StrokeStyle string
  | LineWidth real
  | LineJoin string
  | LineCap string
  | ClearRect jsnum jsnum jsnum jsnum
  | FillRect jsnum jsnum jsnum jsnum
  | StrokeRect jsnum jsnum jsnum jsnum
  | BeginPath
  | MoveTo jsnum jsnum
  | LineTo jsnum jsnum
  | Stroke
  | Fill
  | Arc jsnum jsnum real

datatype error = TypeError

text \<open>What a drawing pass does: it returns after its calls, it throws (the calls
  made before the throw are not kept), or it never returns.\<close>

datatype draw_result = Drawn "cmd list" | Thrown error | Hung

text \<open>Convert physics coordinates to canvas coordinates.\<close>

definition getScreenPos ::
  "jsnum \<Rightarrow> jsnum \<Rightarrow> jsnum \<Rightarrow> jsnum \<Rightarrow> jsnum \<Rightarrow> jsnum \<times> jsnum" where
  "getScreenPos x y scale w h =
     (js_add (js_mul x scale) (js_div w (Fin 2)),
      js_add (js_mul (js_neg y) scale) (js_div h (Fin 2)))"

text \<open>\<open>positions[j]\<close> for a number \<open>j\<close>: an element when \<open>j\<close> is an index of the
  array, \<open>undefined\<close> (here \<open>None\<close>) otherwise.\<close>

fun array_get :: "'a list \<Rightarrow> jsnum \<Rightarrow> 'a option" where
  "array_get xs (Fin r) =
     (if r = of_int \<lfloor>r\<rfloor> \<and> 0 \<le> r \<and> nat \<lfloor>r\<rfloor> < length xs
      then Some (xs ! nat \<lfloor>r\<rfloor>) else None)"
| "array_get xs a = None"

text \<open>\<open>p[i]\<close> for a frame \<open>p\<close>, read only as an operand of \<open>*\<close> or of unary
  \<open>-\<close>, where \<open>undefined\<close> counts as \<open>NaN\<close>.\<close>

definition frame_get :: "real list \<Rightarrow> int \<Rightarrow> jsnum" where
  "frame_get p i = (if 0 \<le> i \<and> nat i < length p then Fin (p ! nat i) else NaN)"

text \<open>The canvas position of the body whose \<open>x\<close> is at index \<open>i\<close> of frame \<open>p\<close>.\<close>

definition body_pos :: "real list \<Rightarrow> int \<Rightarrow> jsnum \<Rightarrow> real \<Rightarrow> real \<Rightarrow> jsnum \<times> jsnum" where
  "body_pos p i scale w h =
     getScreenPos (frame_get p i) (frame_get p (i + 1)) scale (Fin w) (Fin h)"

subsection \<open>Grid\<close>

text \<open>The two loops of the minor grid, \<open>for (let x = ox % step; x < w; x += step)\<close>
  and its twin for \<open>y\<close>. Nothing in them bounds the number of passes.\<close>

partial_function (option) grid_cols ::
  "jsnum \<Rightarrow> real \<Rightarrow> real \<Rightarrow> jsnum \<Rightarrow> cmd list \<Rightarrow> cmd list option" where
  "grid_cols x w h step acc =
     (if js_lt x (Fin w)
      then grid_cols (js_add x step) w h step (acc @ [MoveTo x (Fin 0), LineTo x (Fin h)])
      else Some acc)"

partial_function (option) grid_rows ::
  "jsnum \<Rightarrow> real \<Rightarrow> real \<Rightarrow> jsnum \<Rightarrow> cmd list \<Rightarrow> cmd list option" where
  "grid_rows y w h step acc =
     (if js_lt y (Fin h)
      then grid_rows (js_add y step) w h step (acc @ [MoveTo (Fin 0) y, LineTo (Fin w) y])
      else Some acc)"

declare grid_cols.simps [code]
declare grid_rows.simps [code]

definition drawGrid :: "real \<Rightarrow> real \<Rightarrow> jsnum \<Rightarrow> bool \<Rightarrow> cmd list option" where
  "drawGrid w h scale detailed =
     (let ox = js_div (Fin w) (Fin 2);
          oy = js_div (Fin h) (Fin 2);
          background = [Save, FillStyle ''#ffffff'', FillRect (Fin 0) (Fin 0) (Fin w) (Fin h)];
          major =
            [StrokeStyle (if detailed then ''#ccc'' else ''#eee''), LineWidth 1, BeginPath,
             MoveTo (Fin 0) oy, LineTo (Fin w) oy, MoveTo ox (Fin 0), LineTo ox (Fin h),
             Stroke]
            @ (if detailed
               then [StrokeStyle ''#000'', StrokeRect (Fin 0) (Fin 0) (Fin w) (Fin h)]
               else [])
            @ [Restore]
      in if detailed \<and> js_truthy scale then
           (let step = js_div scale (Fin 5)
            in case grid_cols (js_rem ox step) w h step [] of
                 None \<Rightarrow> None
               | Some cols \<Rightarrow>
                   (case grid_rows (js_rem oy step) w h step [] of
                      None \<Rightarrow> None
                    | Some rows \<Rightarrow>
                        Some (background
                              @ [StrokeStyle ''#f0f0f0'', LineWidth 1, BeginPath]
                              @ cols @ rows @ [Stroke] @ major)))
         else Some (background @ major))"

subsection \<open>Scene\<close>

text \<open>The trace loop \<open>for (let j = startTrace; j <= state.frameIdx; j++)\<close>. Reading
  a coordinate of \<open>positions[j]\<close> throws when \<open>j\<close> is not an index.\<close>

function trace_loop ::
  "real list list \<Rightarrow> int \<Rightarrow> jsnum \<Rightarrow> real \<Rightarrow> real \<Rightarrow> jsnum \<Rightarrow> jsnum \<Rightarrow> jsnum
     \<Rightarrow> error + cmd list" where
  "trace_loop ps endIdx scale w h startTrace fidx j =
     (if js_le j fidx then
        (case array_get ps j of
           None \<Rightarrow> Inl TypeError
         | Some p \<Rightarrow>
             (case trace_loop ps endIdx scale w h startTrace fidx (js_add j (Fin 1)) of
                Inl e \<Rightarrow> Inl e
              | Inr cs \<Rightarrow>
                  Inr ((case body_pos p endIdx scale w h of
                          (x, y) \<Rightarrow> if j = startTrace then MoveTo x y else LineTo x y)
                       # cs)))
      else Inr [])"
  by pat_completeness auto

termination trace_loop
proof (relation "measure (\<lambda>(ps, endIdx, scale, w, h, startTrace, fidx, j).
           case j of Fin r \<Rightarrow> length ps - nat \<lfloor>r\<rfloor> | _ \<Rightarrow> 0)", goal_cases)
  case 1
  show ?case by simp
next
  case (2 ps endIdx scale w h startTrace fidx j p)
  then show ?case
    by (cases j) (auto split: if_splits)
qed

text \<open>The loop over the bodies that draws the rods, \<open>pos\<close> being
  \<open>positions[state.frameIdx]\<close>: a line to each body in turn.\<close>

fun rods_loop :: "real list option \<Rightarrow> jsnum \<Rightarrow> real \<Rightarrow> real \<Rightarrow> nat list \<Rightarrow> error + cmd list" where
  "rods_loop pos scale w h [] = Inr []"
| "rods_loop pos scale w h (k # ks) =
     (case pos of
        None \<Rightarrow> Inl TypeError
      | Some p \<Rightarrow>
          (case rods_loop pos scale w h ks of
             Inl e \<Rightarrow> Inl e
           | Inr cs \<Rightarrow>
               Inr ((case body_pos p (2 * int k) scale w h of (x, y) \<Rightarrow> LineTo x y) # cs)))"

definition drawCircle :: "jsnum \<Rightarrow> jsnum \<Rightarrow> real \<Rightarrow> string \<Rightarrow> cmd list" where
  "drawCircle cx cy r color = [FillStyle color, BeginPath, Arc cx cy r, Fill]"

text \<open>The loop over the bodies that draws the masses.\<close>

fun masses_loop :: "real list option \<Rightarrow> jsnum \<Rightarrow> real \<Rightarrow> real \<Rightarrow> nat list \<Rightarrow> error + cmd list" where
  "masses_loop pos scale w h [] = Inr []"
| "masses_loop pos scale w h (k # ks) =
     (case pos of
        None \<Rightarrow> Inl TypeError
      | Some p \<Rightarrow>
          (case masses_loop pos scale w h ks of
             Inl e \<Rightarrow> Inl e
           | Inr cs \<Rightarrow>
               Inr ((case body_pos p (2 * int k) scale w h of
                       (x, y) \<Rightarrow> drawCircle x y 6 ''#333'') @ cs)))"

text \<open>The scale of the scene for a canvas of width \<open>w\<close>.\<close>

definition frame_scale :: "real \<Rightarrow> animData \<Rightarrow> jsnum" where
  "frame_scale w d = js_div (js_div (Fin w) (Fin 2)) (Fin (limit d))"

text \<open>The first frame of the trace and the index of the last body's \<open>x\<close>.\<close>

definition startTrace :: "state \<Rightarrow> jsnum" where
  "startTrace s = js_max (Fin 0) (js_sub (frameIdx s) (Fin traceLen))"

definition endIdx :: "animData \<Rightarrow> int" where
  "endIdx d = (int (n d) - 1) * 2"

text \<open>\<open>drawFrame\<close> on a canvas of width \<open>w\<close> and height \<open>h\<close>.\<close>

definition drawFrame :: "state \<Rightarrow> real \<Rightarrow> real \<Rightarrow> draw_result" where
  "drawFrame s w h =
     (case animData s of
        None \<Rightarrow> Drawn []
      | Some d \<Rightarrow>
          (let scale = frame_scale w d;
               pos = array_get (positions d) (frameIdx s)
           in case drawGrid w h scale False of
                None \<Rightarrow> Hung
              | Some grid \<Rightarrow>
             (case trace_loop (positions d) (endIdx d) scale w h (startTrace s)
                     (frameIdx s) (startTrace s) of
                Inl e \<Rightarrow> Thrown e
              | Inr trace \<Rightarrow>
             (case rods_loop pos scale w h [0..<n d] of
                Inl e \<Rightarrow> Thrown e
              | Inr rods \<Rightarrow>
             (case masses_loop pos scale w h [0..<n d] of
                Inl e \<Rightarrow> Thrown e
              | Inr masses \<Rightarrow>
                  Drawn ([ClearRect (Fin 0) (Fin 0) (Fin w) (Fin h)] @ grid
                         @ [StrokeStyle ''rgba(255, 0, 0, 0.6)'', LineWidth 2, BeginPath]
                         @ trace
                         @ [Stroke, LineWidth 3, StrokeStyle ''black'', BeginPath,
                            MoveTo (js_div (Fin w) (Fin 2)) (js_div (Fin h) (Fin 2))]
                         @ rods
                         @ [Stroke]
                         @ drawCircle (js_div (Fin w) (Fin 2)) (js_div (Fin h) (Fin 2)) 4 ''black''
                         @ masses))))))"

subsection \<open>Trajectories\<close>

text \<open>The inner loop \<open>for (let j = 0; j <= state.frameIdx; j++)\<close> for the body whose
  \<open>x\<close> is at index \<open>i\<close> of a frame.\<close>

function traj_loop ::
  "real list list \<Rightarrow> int \<Rightarrow> jsnum \<Rightarrow> real \<Rightarrow> real \<Rightarrow> jsnum \<Rightarrow> bool \<Rightarrow> jsnum
     \<Rightarrow> error + cmd list" where
  "traj_loop ps i scale w h fidx started j =
     (if js_le j fidx then
        (case array_get ps j of
           None \<Rightarrow> Inl TypeError
         | Some p \<Rightarrow>
             (case traj_loop ps i scale w h fidx True (js_add j (Fin 1)) of
                Inl e \<Rightarrow> Inl e
              | Inr cs \<Rightarrow>
                  Inr ((case body_pos p i scale w h of
                          (x, y) \<Rightarrow> if \<not> started then MoveTo x y else LineTo x y)
                       # cs)))
      else Inr [])"
  by pat_completeness auto
termination
proof (relation "measure (\<lambda>(ps, i, scale, w, h, fidx, started, j).
           case j of Fin r \<Rightarrow> length ps - nat \<lfloor>r\<rfloor> | _ \<Rightarrow> 0)", goal_cases)
  case 1
  show ?case by simp
next
  case (2 ps i scale w h fidx started j p)
  then show ?case
    by (cases j) (auto split: if_splits)
qed

text \<open>The outer loop over the bodies: colour, path, stroke.\<close>

fun graph_loop ::
  "real list list \<Rightarrow> jsnum \<Rightarrow> real \<Rightarrow> real \<Rightarrow> jsnum \<Rightarrow> nat list \<Rightarrow> error + cmd list" where
  "graph_loop ps scale w h fidx [] = Inr []"
| "graph_loop ps scale w h fidx (k # ks) =
     (case traj_loop ps (2 * int k) scale w h fidx False (Fin 0) of
        Inl e \<Rightarrow> Inl e
      | Inr path \<Rightarrow>
          (case graph_loop ps scale w h fidx ks of
             Inl e \<Rightarrow> Inl e
           | Inr cs \<Rightarrow>
               Inr ([StrokeStyle (colors ! (k mod length colors)), BeginPath] @ path
                    @ [Stroke] @ cs)))"

text \<open>The scale of the trajectory plot.\<close>

definition graph_scale :: "real \<Rightarrow> real \<Rightarrow> animData \<Rightarrow> jsnum" where
  "graph_scale w h d = js_div (js_div (Fin (min w h)) (Fin 2)) (Fin (limit d))"

text \<open>\<open>drawGraph\<close> on a canvas of width \<open>w\<close> and height \<open>h\<close>.\<close>

definition drawGraph :: "state \<Rightarrow> real \<Rightarrow> real \<Rightarrow> draw_result" where
  "drawGraph s w h =
     (case animData s of
        None \<Rightarrow> Drawn []
      | Some d \<Rightarrow>
          (let scale = graph_scale w h d
           in case drawGrid w h scale True of
                None \<Rightarrow> Hung
              | Some grid \<Rightarrow>
                  (case graph_loop (positions d) scale w h (frameIdx s) [0..<n d] of
                     Inl e \<Rightarrow> Thrown e
                   | Inr paths \<Rightarrow>
                       Drawn (grid @ [LineWidth 2.5, LineCap ''round'', LineJoin ''round'']
                              @ paths))))"

text \<open>\<open>drawFrame(); drawGraph();\<close> with both canvases square of side \<open>sz\<close>, as
  \<open>resizeCanvases\<close> leaves them.\<close>

definition render :: "state \<Rightarrow> nat \<Rightarrow> draw_result" where
  "render s sz =
     (case drawFrame s (real sz) (real sz) of
        Drawn a \<Rightarrow>
          (case drawGraph s (real sz) (real sz) of
             Drawn b \<Rightarrow> Drawn (a @ b)
           | r \<Rightarrow> r)
      | r \<Rightarrow> r)"

section \<open>Event handlers\<close>

text \<open>One pass of \<open>animate\<close> at \<open>Date.now() = now\<close>.\<close>

definition animate :: "real \<Rightarrow> nat \<Rightarrow> state \<Rightarrow> state \<times> draw_result" where
  "animate now sz s =
     (if isPlaying s \<and> animData s \<noteq> None
      then (let s' = tick now s in (s', render s' sz))
      else (s, Drawn []))"

text \<open>The reset listener.\<close>

definition reset_click :: "real \<Rightarrow> nat \<Rightarrow> state \<Rightarrow> state \<times> draw_result" where
  "reset_click now sz s = (let s' = reset now s in (s', render s' sz))"

text \<open>The run listener up to the call of \<open>fetch\<close>. \<open>n_input\<close> is
  \<open>parseInt(els.inputs.n.value)\<close> (\<open>None\<close> for \<open>NaN\<close>) and \<open>confirmed\<close> the
  answer to the confirmation dialog, should it be shown. The second component is the
  body count of the request sent, if one is sent. The form that \<open>getSimInputs\<close> reads
  is taken to hold the fields of every body.\<close>

definition needs_confirm :: "int option \<Rightarrow> bool" where
  "needs_confirm n_input = (case n_input of None \<Rightarrow> False | Some k \<Rightarrow> 20 < k)"

definition run_click :: "int option \<Rightarrow> bool \<Rightarrow> state \<Rightarrow> state \<times> int option option" where
  "run_click n_input confirmed s =
     (if needs_confirm n_input \<and> \<not> confirmed then (s, None)
      else (s\<lparr>isPlaying := False\<rparr>, Some n_input))"

text \<open>The outcome of the request: \<open>fetch\<close> or the decoding of the body rejects with
  a message, the response is not \<open>ok\<close> and has a body text, or the body is a payload.\<close>

record payload =
  success :: bool
  message :: "string option"
  animation_data :: "animData option"

datatype response = Rejected string | NotOk string | Json payload

text \<open>An alert: its text, or \<open>Error: \<close> followed by the message the engine gives an
  error thrown while drawing.\<close>

datatype alert = AlertText string | AlertThrown error

text \<open>The handlers chained on the request, run when it settles at \<open>Date.now() = now\<close>.\<close>

definition run_settle ::
  "response \<Rightarrow> real \<Rightarrow> nat \<Rightarrow> state \<Rightarrow> state \<times> alert list \<times> draw_result" where
  "run_settle resp now sz s =
     (case resp of
        Rejected m \<Rightarrow> (s, [AlertText (''Error: '' @ m)], Drawn [])
      | NotOk t \<Rightarrow> (s, [AlertText (''Error: '' @ t)], Drawn [])
      | Json data \<Rightarrow>
          if \<not> success data then
            (s, [AlertText (''Error: '' @
                   (case message data of
                      None \<Rightarrow> ''Unknown error''
                    | Some m \<Rightarrow> if m = [] then ''Unknown error'' else m))],
             Drawn [])
          else
            (let s' = load now (animation_data data) s
             in case render s' sz of
                  Thrown e \<Rightarrow> (s', [AlertThrown e], Thrown e)
                | r \<Rightarrow> (s', [], r)))"

text \<open>The play/pause listener.\<close>

definition play_click ::
  "real \<Rightarrow> int option \<Rightarrow> bool \<Rightarrow> state \<Rightarrow> state \<times> int option option" where
  "play_click now n_input confirmed s =
     (case animData s of
        None \<Rightarrow> run_click n_input confirmed s
      | Some d \<Rightarrow> (toggle now d s, None))"

section \<open>Runs of the page\<close>

datatype event =
    RunClick "int option" bool
  | RunSettle response
  | PlayClick "int option" bool
  | ResetClick
  | AnimFrame

text \<open>The state after an event handled at \<open>Date.now() = now\<close> with canvases of side
  \<open>sz\<close>.\<close>

fun step :: "nat \<Rightarrow> real \<Rightarrow> event \<Rightarrow> state \<Rightarrow> state" where
  "step sz now (RunClick n_input confirmed) s = fst (run_click n_input confirmed s)"
| "step sz now (RunSettle resp) s = fst (run_settle resp now sz s)"
| "step sz now (PlayClick n_input confirmed) s = fst (play_click now n_input confirmed s)"
| "step sz now ResetClick s = fst (reset_click now sz s)"
| "step sz now AnimFrame s = fst (animate now sz s)"

text \<open>A run of the page: the events in order, each with the clock reading and the side
  of the canvases at which it is handled.\<close>

fun run_from :: "state \<Rightarrow> (real \<times> nat \<times> event) list \<Rightarrow> state" where
  "run_from s [] = s"
| "run_from s ((now, sz, e) # evs) = run_from (step sz now e s) evs"

text \<open>The clock readings of a run never decrease, starting from \<open>t\<close>.\<close>

fun clock_ok :: "real \<Rightarrow> (real \<times> nat \<times> event) list \<Rightarrow> bool" where
  "clock_ok t [] = True"
| "clock_ok t ((now, sz, e) # evs) = (t \<le> now \<and> clock_ok now evs)"

text \<open>The frame index is an index of the frame list of \<open>d\<close>.\<close>

definition frame_in_range :: "state \<Rightarrow> animData \<Rightarrow> bool" where
  "frame_in_range s d =
     (case frameIdx s of
        Fin r \<Rightarrow> r = of_int \<lfloor>r\<rfloor> \<and> 0 \<le> r \<and> r < real (length (positions d))
      | _ \<Rightarrow> False)"

section \<open>The formulas of the specification\<close>



text \<open>The message of a failed run: the message of the rejection, the body text of a
  response that is not \<open>ok\<close>, or the message of a payload that is not a success
  (\<open>Unknown error\<close> when it has none). \<open>None\<close> for a success.\<close>

fun failure_message :: "response \<Rightarrow> string option" where
  "failure_message (Rejected m) = Some m"
| "failure_message (NotOk t) = Some t"
| "failure_message (Json data) =
     (if success data then None
      else Some (case message data of
                   None \<Rightarrow> ''Unknown error''
                 | Some m \<Rightarrow> if m = [] then ''Unknown error'' else m))"

text \<open>A connected line through a list of points.\<close>

fun polyline :: "(jsnum \<times> jsnum) list \<Rightarrow> cmd list" where
  "polyline [] = []"
| "polyline ((x, y) # pts) = MoveTo x y # map (\<lambda>(x, y). LineTo x y) pts"

text \<open>The frames of the trace at frame index \<open>f\<close>: from \<open>max(0, f - traceTailLength)\<close>
  to \<open>f\<close> inclusive.\<close>

definition trace_frames :: "int \<Rightarrow> int list" where
  "trace_frames f = [max 0 (f - 100)..f]"

text \<open>The dataset invariant: at least one body, and \<open>2 * bodyCount\<close> entries in every
  frame.\<close>

definition well_formed :: "animData \<Rightarrow> bool" where
  "well_formed d = (0 < n d \<and> list_all (\<lambda>p. length p = 2 * n d) (positions d))"

text \<open>The coordinate mapper on a physical point: \<open>pixelX = x * scale + w/2\<close> and
  \<open>pixelY = -y * scale + h/2\<close>, for a scale that need not be finite.\<close>

definition spec_point :: "real \<Rightarrow> real \<Rightarrow> jsnum \<Rightarrow> real \<Rightarrow> real \<Rightarrow> jsnum \<times> jsnum" where
  "spec_point x y scale w h =
     (js_add (js_mul (Fin x) scale) (Fin (w / 2)),
      js_add (js_mul (Fin (- y)) scale) (Fin (h / 2)))"

text \<open>The canvas position of body \<open>k\<close> at frame \<open>j\<close>: the mapper on the entries
  \<open>2k\<close> and \<open>2k + 1\<close> of that frame of the dataset.\<close>

definition body_at :: "animData \<Rightarrow> int \<Rightarrow> nat \<Rightarrow> jsnum \<Rightarrow> real \<Rightarrow> real \<Rightarrow> jsnum \<times> jsnum" where
  "body_at d j k scale w h =
     spec_point (positions d ! nat j ! (2 * k)) (positions d ! nat j ! (2 * k + 1)) scale w h"

text \<open>The plain grid: background and the two axes through the centre.\<close>

definition plain_grid :: "real \<Rightarrow> real \<Rightarrow> cmd list" where
  "plain_grid w h =
     [Save, FillStyle ''#ffffff'', FillRect (Fin 0) (Fin 0) (Fin w) (Fin h),
      StrokeStyle ''#eee'', LineWidth 1, BeginPath,
      MoveTo (Fin 0) (Fin (h / 2)), LineTo (Fin w) (Fin (h / 2)),
      MoveTo (Fin (w / 2)) (Fin 0), LineTo (Fin (w / 2)) (Fin h), Stroke, Restore]"

text \<open>The scene at frame \<open>f\<close> and a given scale: clear, plain grid, the trace of the last
  body (index \<open>n - 1\<close>), the rods from the pivot through the bodies in order, the
  markers of the pivot and of the bodies.\<close>

definition scene_cmds :: "animData \<Rightarrow> int \<Rightarrow> jsnum \<Rightarrow> real \<Rightarrow> real \<Rightarrow> cmd list" where
  "scene_cmds d f scale w h =
     [ClearRect (Fin 0) (Fin 0) (Fin w) (Fin h)] @ plain_grid w h
     @ [StrokeStyle ''rgba(255, 0, 0, 0.6)'', LineWidth 2, BeginPath]
     @ polyline (map (\<lambda>j. body_at d j (n d - 1) scale w h) (trace_frames f))
     @ [Stroke, LineWidth 3, StrokeStyle ''black'', BeginPath, MoveTo (Fin (w / 2)) (Fin (h / 2))]
     @ map (\<lambda>k. case body_at d f k scale w h of (x, y) \<Rightarrow> LineTo x y) [0..<n d]
     @ [Stroke]
     @ drawCircle (Fin (w / 2)) (Fin (h / 2)) 4 ''black''
     @ concat (map (\<lambda>k. case body_at d f k scale w h of
                           (x, y) \<Rightarrow> drawCircle x y 6 ''#333'') [0..<n d])"

text \<open>The trajectory of body \<open>k\<close> at frame \<open>f\<close>: its colour and one connected line
  through its position at every frame from 0 to \<open>f\<close> inclusive.\<close>

definition trajectory_cmds :: "animData \<Rightarrow> int \<Rightarrow> jsnum \<Rightarrow> real \<Rightarrow> real \<Rightarrow> nat \<Rightarrow> cmd list" where
  "trajectory_cmds d f scale w h k =
     [StrokeStyle (colors ! (k mod length colors)), BeginPath]
     @ polyline (map (\<lambda>j. body_at d j k scale w h) [0..f])
     @ [Stroke]"

text \<open>The trajectory pass at a given scale after the calls \<open>grid\<close> of its grid: the line
  style, then the trajectory of every body in order.\<close>

definition graph_cmds :: "animData \<Rightarrow> int \<Rightarrow> jsnum \<Rightarrow> real \<Rightarrow> real \<Rightarrow> cmd list \<Rightarrow> cmd list" where
  "graph_cmds d f scale w h grid =
     grid @ [LineWidth 2.5, LineCap ''round'', LineJoin ''round'']
     @ concat (map (trajectory_cmds d f scale w h) [0..<n d])"

text \<open>A scale as the division by a spatial limit that is not positive leaves it: an
  infinity for a zero limit, a negative number for a negative limit.\<close>

definition degenerate_scale :: "animData \<Rightarrow> jsnum \<Rightarrow> bool" where
  "degenerate_scale d scale =
     (if limit d = 0 then scale = PInf \<or> scale = NInf else js_lt scale (Fin 0))"

section \<open>Invariant of the playback clock\<close>

text \<open>The playback origin is a finite instant not later than the clock reading \<open>t\<close>.\<close>

definition origin_ok :: "real \<Rightarrow> state \<Rightarrow> bool" where
  "origin_ok t s = (case playStartTime s of Fin p \<Rightarrow> p \<le> t | _ \<Rightarrow> False)"

text \<open>With a dataset of at least two frames, the frame index is in range and the origin
  is not in the future.\<close>

definition playback_inv :: "real \<Rightarrow> state \<Rightarrow> bool" where
  "playback_inv t s =
     (case animData s of
        None \<Rightarrow> True
      | Some d \<Rightarrow> 2 \<le> length (positions d) \<longrightarrow> frame_in_range s d \<and> origin_ok t s)"

section \<open>Example runs\<close>

text \<open>The dataset of the first end-to-end scenario, loaded by a successful run settled at
  clock reading 0, and at clock reading 1000, on canvases of side 400.\<close>

definition scenario1 :: animData where
  "scenario1 = \<lparr>n = 1, limit = 2, positions = [[1, 0], [0, 1], [- 1, 0]]\<rparr>"

definition scenario1_response :: response where
  "scenario1_response =
     Json \<lparr>success = True, message = None, animation_data = Some scenario1\<rparr>"

definition loaded_at_0 :: state where
  "loaded_at_0 = step 400 0 (RunSettle scenario1_response) init_state"

definition loaded_at_1000 :: state where
  "loaded_at_1000 = step 400 1000 (RunSettle scenario1_response) init_state"

text \<open>The scenario playing at its last frame: a pass at clock reading 50000 after
  the load at 0.\<close>

definition playing_last_frame :: state where
  "playing_last_frame = step 400 50000 AnimFrame loaded_at_0"

text \<open>A dataset of one frame, loaded at clock reading 0.\<close>

definition single_frame :: animData where
  "single_frame = \<lparr>n = 1, limit = 2, positions = [[1, 0]]\<rparr>"

definition single_frame_loaded :: state where
  "single_frame_loaded =
     step 400 0
       (RunSettle (Json \<lparr>success = True, message = None, animation_data = Some single_frame\<rparr>))
       init_state"

text \<open>The failure of the second end-to-end scenario, and a dataset without frames.\<close>

definition invalid_mass :: response where
  "invalid_mass =
     Json \<lparr>success = False, message = Some ''invalid mass'', animation_data = None\<rparr>"

definition no_frames :: animData where
  "no_frames = \<lparr>n = 1, limit = 2, positions = []\<rparr>"

text \<open>Two bodies over 150 frames, loaded at clock reading 0 and paused at 48000, after
  the pass that reaches frame 120.\<close>

definition long_run :: animData where
  "long_run = \<lparr>n = 2, limit = 2, positions = replicate 150 [1, 0, 1, - 1]\<rparr>"

definition paused_at_120 :: state where
  "paused_at_120 =
     step 400 48000 (PlayClick None False)
       (step 400 48000 AnimFrame
         (step 400 0
           (RunSettle (Json \<lparr>success = True, message = None, animation_data = Some long_run\<rparr>))
           init_state))"

text \<open>The same dataset, loaded at clock reading 0 and playing.\<close>

definition long_run_loaded :: state where
  "long_run_loaded =
     step 400 0
       (RunSettle (Json \<lparr>success = True, message = None, animation_data = Some long_run\<rparr>))
       init_state"

text \<open>The scenario with its spatial limit negated, loaded at clock reading 0.\<close>

definition neg_limit :: animData where
  "neg_limit = \<lparr>n = 1, limit = - 2, positions = [[1, 0], [0, 1], [- 1, 0]]\<rparr>"

definition neg_limit_loaded :: state where
  "neg_limit_loaded =
     step 400 0
       (RunSettle (Json \<lparr>success = True, message = None, animation_data = Some neg_limit\<rparr>))
       init_state"

text \<open>A dataset whose spatial limit is zero, loaded at clock reading 0.\<close>

definition zero_limit :: animData where
  "zero_limit = \<lparr>n = 1, limit = 0, positions = [[1, 0], [0, 1], [- 1, 0]]\<rparr>"

definition zero_limit_loaded :: state where
  "zero_limit_loaded =
     step 400 0
       (RunSettle (Json \<lparr>success = True, message = None, animation_data = Some zero_limit\<rparr>))
       init_state"

section \<open>The state part of the handlers\<close>

lemma fst_animate: "fst (animate now sz s) = tick now s"
  by (simp add: animate_def tick_def Let_def split: option.splits)

lemma fst_reset_click: "fst (reset_click now sz s) = reset now s"
  by (simp add: reset_click_def Let_def)

lemma fst_run_settle_success:
  "success data \<Longrightarrow> fst (run_settle (Json data) now sz s) = load now (animation_data data) s"
  by (simp add: run_settle_def Let_def split: draw_result.splits)

lemma fst_play_click_loaded:
  "animData s = Some d \<Longrightarrow> fst (play_click now n_input confirmed s) = toggle now d s"
  by (simp add: play_click_def)

lemma animData_play_click:
  "animData s = Some d \<Longrightarrow> animData (fst (play_click now n_input confirmed s)) = Some d"
  by (simp add: play_click_def toggle_def Let_def)

lemma loaded_at_0_eq: "loaded_at_0 = load 0 (Some scenario1) init_state"
  by (simp add: loaded_at_0_def scenario1_response_def fst_run_settle_success)

lemma loaded_at_1000_eq: "loaded_at_1000 = load 1000 (Some scenario1) init_state"
  by (simp add: loaded_at_1000_def scenario1_response_def fst_run_settle_success)

lemma paused_at_120_eq:
  "paused_at_120 = \<lparr>animData = Some long_run, isPlaying = False, frameIdx = Fin 120,
                     playStartTime = Fin 0\<rparr>"
proof -
  let ?s = "load 0 (Some long_run) init_state"
  have t: "tick 48000 ?s = ?s\<lparr>frameIdx := Fin 120\<rparr>"
    by (simp add: tick_def load_def Let_def js_sub_def simDuration_def js_trunc_def
        long_run_def)
  have a: "animData (?s\<lparr>frameIdx := Fin 120\<rparr>) = Some long_run"
    by (simp add: load_def)
  show ?thesis
    unfolding paused_at_120_def
    by (simp add: fst_run_settle_success fst_animate t fst_play_click_loaded [OF a])
       (simp add: toggle_def load_def init_state_def Let_def)
qed


section \<open>Frame index of a pass\<close>

lemma js_rem_1: "js_rem (Fin x) (Fin 1) = Fin (rem1 x)"
  by (simp add: rem1_def)

lemma rem1_frac: "0 \<le> x \<Longrightarrow> rem1 x = frac x"
  by (simp add: rem1_def js_trunc_def frac_def)


lemma tick_idle: "\<not> isPlaying s \<Longrightarrow> tick now s = s"
  by (simp add: tick_def split: option.splits)

lemma tick_other:
  "animData (tick now s) = animData s"
  "playStartTime (tick now s) = playStartTime s"
  "isPlaying (tick now s) = isPlaying s"
  by (simp_all add: tick_def Let_def split: option.splits)

lemma tick_playing:
  assumes "animData s = Some d" and "playStartTime s = Fin p" and "isPlaying s"
  shows "tick now s =
           s\<lparr>frameIdx :=
               Fin (of_int \<lfloor>rem1 ((now - p) / 1000 / simDuration)
                             * real (length (positions d))\<rfloor>)\<rparr>"
  using assms
  by (simp add: tick_def rem1_def js_sub_def Let_def simDuration_def)

text \<open>Without rounding, \<open>tick_with\<close> is \<open>tick\<close>, the state part of \<open>animate\<close>.\<close>

lemma tick_with_id: "tick_with id now s = tick now s"
proof -
  have r: "js_round id a = a" for a
    by (cases a) simp_all
  show ?thesis
    unfolding tick_with_def tick_def r by (rule refl)
qed



lemma pow2_pos: "0 < pow2 k"
  by (simp add: pow2_def)

text \<open>\<open>binade x\<close> is the binary exponent of \<open>x\<close>, and \<open>round64 x\<close> is within half a unit
  in the last place of \<open>x\<close>.\<close>

lemma bits_upper: "k < 2 ^ bits k"
proof (induction k rule: bits.induct)
  case (1 k)
  show ?case
  proof (cases "k = 0")
    case True
    then show ?thesis by (simp add: bits.simps)
  next
    case False
    with 1 have "k div 2 < 2 ^ bits (k div 2)" by simp
    then have "k < 2 * 2 ^ bits (k div 2)" by linarith
    with False show ?thesis by (subst bits.simps) simp
  qed
qed

lemma bits_pos: "0 < k \<Longrightarrow> bits k = Suc (bits (k div 2))"
  by (subst bits.simps) simp

lemma bits_lower: "0 < k \<Longrightarrow> 2 ^ (bits k - 1) \<le> k"
proof (induction k rule: bits.induct)
  case (1 k)
  then have k: "k \<noteq> 0" by simp
  have b: "bits k = Suc (bits (k div 2))"
    using 1(2) by (rule bits_pos)
  show ?case
  proof (cases "k div 2 = 0")
    case True
    then have "bits (k div 2) = 0" by (simp add: bits.simps)
    with b 1(2) show ?thesis by simp
  next
    case False
    with 1(1) [OF k] have ih: "2 ^ (bits (k div 2) - 1) \<le> k div 2" by simp
    from False have "0 < bits (k div 2)"
      by (simp add: bits_pos)
    then have "(2::nat) ^ bits (k div 2) = 2 * 2 ^ (bits (k div 2) - 1)"
      by (cases "bits (k div 2)") simp_all
    also have "\<dots> \<le> 2 * (k div 2)" using ih by simp
    also have "\<dots> \<le> k" by simp
    finally show ?thesis by (simp add: b)
  qed
qed

lemma binade_bounds:
  assumes "x \<noteq> 0"
  shows "pow2 (binade x) \<le> \<bar>x\<bar> \<and> \<bar>x\<bar> < pow2 (binade x + 1)"
proof (cases "1 \<le> \<bar>x\<bar>")
  case True
  define m where "m = nat \<lfloor>\<bar>x\<bar>\<rfloor>"
  have fl: "1 \<le> \<lfloor>\<bar>x\<bar>\<rfloor>" using True by (simp add: le_floor_iff)
  then have rm: "real m = of_int \<lfloor>\<bar>x\<bar>\<rfloor>" unfolding m_def by simp
  have m: "0 < m" "real m \<le> \<bar>x\<bar>" "\<bar>x\<bar> < real m + 1"
  proof -
    show "0 < m" using fl unfolding m_def by simp
    show "real m \<le> \<bar>x\<bar>" unfolding rm by (rule of_int_floor_le)
    show "\<bar>x\<bar> < real m + 1" unfolding rm by linarith
  qed
  have e: "binade x = int (bits m) - 1"
    using True by (simp add: binade_def m_def)
  have bp: "0 < bits m"
    using m(1) by (subst bits.simps) simp
  have "(2::real) ^ (bits m - 1) = real (2 ^ (bits m - 1))" by simp
  also have "\<dots> \<le> real m"
    using bits_lower [OF m(1)] by (rule of_nat_mono)
  also have "\<dots> \<le> \<bar>x\<bar>" by (rule m(2))
  finally have lo: "2 ^ (bits m - 1) \<le> \<bar>x\<bar>" .
  have "Suc m \<le> 2 ^ bits m"
    using bits_upper [of m] by simp
  then have "real (Suc m) \<le> real (2 ^ bits m)"
    by (rule of_nat_mono)
  then have "real m + 1 \<le> 2 ^ bits m" by simp
  with m(3) have hi: "\<bar>x\<bar> < 2 ^ bits m" by linarith
  have n1: "nat (int (bits m) - 1) = bits m - 1" by simp
  have n2: "nat (int (bits m) - 1 + 1) = bits m" by simp
  show ?thesis
    using lo hi bp unfolding e pow2_def by (simp add: n1)
next
  case False
  then have x1: "\<bar>x\<bar> < 1" by simp
  have x0: "0 < \<bar>x\<bar>" using assms by simp
  define y where "y = 1 / \<bar>x\<bar>"
  have y1: "1 < y" using x0 x1 by (simp add: y_def)
  define m where "m = nat \<lceil>y\<rceil>"
  have cl: "2 \<le> \<lceil>y\<rceil>" using y1 by (simp add: le_ceiling_iff)
  then have rm: "real m = of_int \<lceil>y\<rceil>" unfolding m_def by simp
  have my: "y \<le> real m" "real m - 1 < y" "2 \<le> m"
  proof -
    show "y \<le> real m" unfolding rm by (rule le_of_int_ceiling)
    show "real m - 1 < y" unfolding rm by linarith
    from cl have "nat 2 \<le> nat \<lceil>y\<rceil>" by (rule nat_mono)
    then show "2 \<le> m" unfolding m_def by simp
  qed
  define k where "k = bits (m - 1)"
  have e: "binade x = - int k"
    using False by (simp add: binade_def m_def y_def k_def)
  have m1: "0 < m - 1" using my(3) by simp
  have kp: "0 < k"
    unfolding k_def using m1 by (subst bits.simps) simp
  have "m - 1 < 2 ^ k" unfolding k_def by (rule bits_upper)
  then have "m \<le> 2 ^ k" by simp
  then have "real m \<le> real (2 ^ k)" by (rule of_nat_mono)
  then have "real m \<le> 2 ^ k" by simp
  with my(1) have yk: "y \<le> 2 ^ k" by linarith
  have "2 ^ (k - 1) \<le> m - 1" unfolding k_def using m1 by (rule bits_lower)
  then have "real (2 ^ (k - 1)) \<le> real (m - 1)" by (rule of_nat_mono)
  moreover have "real (m - 1) = real m - 1" using my(3) by (simp add: of_nat_diff)
  ultimately have "2 ^ (k - 1) \<le> real m - 1" by simp
  with my(2) have ky: "2 ^ (k - 1) < y" by linarith
  have xy: "\<bar>x\<bar> = 1 / y" using x0 by (simp add: y_def)
  have lo: "1 / 2 ^ k \<le> \<bar>x\<bar>"
    unfolding xy using yk y1 by (simp add: frac_le)
  have hi: "\<bar>x\<bar> < 1 / 2 ^ (k - 1)"
    unfolding xy using ky by (simp add: frac_less2)
  have p1: "pow2 (- int k) = 1 / 2 ^ k"
    using kp by (simp add: pow2_def)
  have p2: "pow2 (- int k + 1) = 1 / 2 ^ (k - 1)"
  proof (cases "k = 1")
    case True
    then show ?thesis by (simp add: pow2_def)
  next
    case False
    with kp have "\<not> 0 \<le> - int k + 1" by simp
    moreover have "nat (- (- int k + 1)) = k - 1" by simp
    ultimately show ?thesis by (simp add: pow2_def)
  qed
  show ?thesis
    unfolding e p1 p2 using lo hi by simp
qed

lemma round_even_near: "\<bar>of_int (round_even y) - y\<bar> \<le> 1 / 2"
proof -
  have "of_int \<lfloor>y\<rfloor> \<le> y" "y < of_int \<lfloor>y\<rfloor> + 1"
    by linarith+
  then show ?thesis
    by (auto simp add: round_even_def Let_def)
qed

lemma round64_near:
  "\<bar>round64 x - x\<bar> \<le> pow2 (max (binade x) (- 1022) - 52) / 2"
proof (cases "x = 0")
  case True
  then show ?thesis
    by (simp add: round64_def less_imp_le [OF pow2_pos])
next
  case False
  define u where "u = pow2 (max (binade x) (- 1022) - 52)"
  have u: "0 < u" unfolding u_def by (rule pow2_pos)
  have "round64 x - x = (of_int (round_even (x / u)) - x / u) * u"
    using False u by (simp add: round64_def u_def [symmetric] Let_def algebra_simps)
  then have "\<bar>round64 x - x\<bar> = \<bar>of_int (round_even (x / u)) - x / u\<bar> * u"
    using u by (simp add: abs_mult)
  also have "\<dots> \<le> 1 / 2 * u"
    using u by (intro mult_right_mono round_even_near) simp
  finally show ?thesis
    by (simp add: u_def)
qed



lemma long_run_loaded_eq: "long_run_loaded = load 0 (Some long_run) init_state"
  by (simp add: long_run_loaded_def fst_run_settle_success)



text \<open>Without rounding the same quotient is 7: the state part of \<open>animate\<close>, which does not
  round, gives frame 7 there.\<close>

lemma unrounded_pass_at_2800:
  "frameIdx (tick_with id 2800 long_run_loaded) = Fin 7"
  by (simp add: tick_with_id long_run_loaded_eq load_def tick_def Let_def js_sub_def
      simDuration_def js_trunc_def long_run_def init_state_def)



section \<open>Pause and resume\<close>

text \<open>Below the last frame, pausing, resuming and a pass at one clock reading leave the
  frame index where it was.\<close>

lemma resume_keeps_inner_frame:
  assumes d: "animData s = Some d" and pl: "isPlaying s"
    and f: "frameIdx s = Fin (of_int f)" "0 \<le> f" "f < int (length (positions d)) - 1"
  shows "frameIdx (tick now (toggle now d (toggle now d s))) = Fin (of_int f)"
proof -
  let ?L = "real (length (positions d))"
  let ?q = "real_of_int f / (?L - 1)"
  have L: "0 < ?L - 1" and fL: "real_of_int f < ?L - 1" and f0: "0 \<le> real_of_int f"
    using f by simp_all (linarith+)?
  have q: "0 \<le> ?q" "?q < 1" using L fL f0 by simp_all
  let ?s' = "toggle now d (toggle now d s)"
  have o: "playStartTime ?s' = Fin (now - ?q * simDuration * 1000)"
    and p: "isPlaying ?s'" and a: "animData ?s' = Some d"
    using d pl f L by (simp_all add: toggle_def Let_def js_sub_def)
  have x: "(now - (now - ?q * simDuration * 1000)) / 1000 / simDuration = ?q"
  proof -
    have "(now - (now - ?q * simDuration * 1000)) / 1000 / simDuration
            = ?q * (simDuration * 1000 / 1000 / simDuration)"
      by (simp only: diff_diff_eq2 add_diff_cancel_left' times_divide_eq_right mult.assoc)
    then show ?thesis by (simp add: simDuration_def)
  qed
  have "\<lfloor>rem1 ((now - (now - ?q * simDuration * 1000)) / 1000 / simDuration) * ?L\<rfloor>
          = \<lfloor>frac ?q * ?L\<rfloor>"
    unfolding x using q by (simp add: rem1_frac)
  also have "frac ?q = ?q" using q by (simp add: frac_eq)
  also have "?q * ?L = real_of_int f + ?q"
    using L by (simp add: field_simps)
  also have "\<lfloor>real_of_int f + ?q\<rfloor> = f"
    using q by (simp add: floor_unique)
  finally show ?thesis
    using tick_playing [OF a o p, of now] by simp
qed

text \<open>
  Claim C1. Pausing, resuming and a pass, all at one clock reading, should leave the frame
  index unchanged. At the last frame they do not: resuming takes the progress to be
  \<open>frameIdx / (positions.length - 1) = 1\<close>, which the pass wraps to frame 0. Here the
  scenario's three frames play at frame 2; after the two clicks and a pass at the same
  clock reading 50000 the frame index is 0.
\<close>

theorem resume_at_last_frame_jumps:
  "isPlaying playing_last_frame \<and> frameIdx playing_last_frame = Fin 2 \<and>
   frameIdx (step 400 50000 AnimFrame
              (step 400 50000 (PlayClick None False)
                (step 400 50000 (PlayClick None False) playing_last_frame))) = Fin 0"
proof -
  have s: "playing_last_frame = (load 0 (Some scenario1) init_state)\<lparr>frameIdx := Fin 2\<rparr>"
    by (simp add: playing_last_frame_def fst_animate loaded_at_0_eq load_def tick_def Let_def
        js_sub_def simDuration_def js_trunc_def scenario1_def)
  have a: "animData playing_last_frame = Some scenario1"
    by (simp add: s load_def)
  have a': "animData (toggle 50000 scenario1 playing_last_frame) = Some scenario1"
    by (simp add: s load_def toggle_def Let_def)
  show ?thesis
    by (simp add: fst_animate fst_play_click_loaded [OF a] fst_play_click_loaded [OF a'])
       (simp add: s load_def toggle_def tick_def Let_def js_sub_def simDuration_def
          js_trunc_def scenario1_def)
qed

section \<open>Range of the frame index\<close>

lemma floor_frac_mult_range:
  assumes "0 \<le> x" and "0 < L"
  shows "0 \<le> \<lfloor>frac x * L\<rfloor>" and "real_of_int \<lfloor>frac x * L\<rfloor> < L"
proof -
  have f: "0 \<le> frac x" "frac x < 1" by (simp_all add: frac_lt_1)
  from f assms show "0 \<le> \<lfloor>frac x * L\<rfloor>" by simp
  have "frac x * L < L" using f assms by simp
  moreover have "real_of_int \<lfloor>frac x * L\<rfloor> \<le> frac x * L" by simp
  ultimately show "real_of_int \<lfloor>frac x * L\<rfloor> < L" by linarith
qed

lemma tick_frame_in_range:
  assumes "animData s = Some d" and "playStartTime s = Fin p" and "p \<le> now"
    and "isPlaying s" and "0 < length (positions d)"
  shows "frame_in_range (tick now s) d"
proof -
  let ?x = "(now - p) / 1000 / simDuration"
  let ?L = "real (length (positions d))"
  have x: "0 \<le> ?x" using assms by (simp add: simDuration_def)
  have "frameIdx (tick now s) = Fin (of_int \<lfloor>rem1 ?x * ?L\<rfloor>)"
    using assms by (simp add: tick_playing)
  then have fi: "frameIdx (tick now s) = Fin (of_int \<lfloor>frac ?x * ?L\<rfloor>)"
    using x by (simp add: rem1_frac)
  have L: "0 < ?L" using assms by simp
  from floor_frac_mult_range [OF x L] fi show ?thesis
    by (simp add: frame_in_range_def)
qed

lemma inv_tick:
  assumes "playback_inv t s" and "t \<le> t'"
  shows "playback_inv t' (tick t' s)"
proof (cases "animData s")
  case None
  then show ?thesis by (simp add: playback_inv_def tick_other)
next
  case (Some d)
  show ?thesis
  proof (cases "isPlaying s \<and> 2 \<le> length (positions d)")
    case True
    with assms Some obtain p where p: "playStartTime s = Fin p" "p \<le> t"
      by (auto simp: playback_inv_def origin_ok_def split: jsnum.splits)
    with True Some assms have "frame_in_range (tick t' s) d"
      by (intro tick_frame_in_range [where p = p]) auto
    with p assms Some show ?thesis
      by (simp add: playback_inv_def tick_other origin_ok_def)
  next
    case False
    with assms Some show ?thesis
      by (auto simp: playback_inv_def tick_other tick_idle origin_ok_def split: jsnum.splits)
  qed
qed

lemma inv_toggle:
  assumes "playback_inv t s" and "t \<le> t'" and "animData s = Some d"
  shows "playback_inv t' (toggle t' d s)"
proof (cases "2 \<le> length (positions d)")
  case False
  with assms show ?thesis by (simp add: playback_inv_def toggle_def Let_def)
next
  case True
  with assms have r: "frame_in_range s d" and o: "origin_ok t s"
    by (simp_all add: playback_inv_def)
  from r obtain r' where r': "frameIdx s = Fin r'" "0 \<le> r'"
    by (auto simp: frame_in_range_def split: jsnum.splits)
  have L: "real (length (positions d)) - 1 > 0" using True by simp
  show ?thesis
  proof (cases "isPlaying s")
    case True
    with assms r o \<open>2 \<le> length (positions d)\<close> show ?thesis
      by (auto simp: playback_inv_def toggle_def Let_def frame_in_range_def origin_ok_def
          split: jsnum.splits)
  next
    case False
    have "0 \<le> r' / (real (length (positions d)) - 1) * simDuration * 1000"
      using r' L by (simp add: simDuration_def)
    with False assms r r' L show ?thesis
      by (simp add: playback_inv_def toggle_def Let_def frame_in_range_def origin_ok_def
          js_sub_def)
  qed
qed

lemma inv_reset:
  assumes "playback_inv t s" and "t \<le> t'"
  shows "playback_inv t' (reset t' s)"
  using assms
  by (auto simp: playback_inv_def reset_def Let_def frame_in_range_def origin_ok_def
      split: option.splits jsnum.splits)

lemma inv_load: "playback_inv t' (load t' data s)"
  by (auto simp: playback_inv_def load_def frame_in_range_def origin_ok_def
      split: option.splits)

lemma inv_mono:
  assumes "playback_inv t s" and "t \<le> t'"
  shows "playback_inv t' s"
  using assms
  by (auto simp: playback_inv_def origin_ok_def split: option.splits jsnum.splits)

lemma inv_pause: "playback_inv t s \<Longrightarrow> playback_inv t (s\<lparr>isPlaying := b\<rparr>)"
  by (auto simp: playback_inv_def origin_ok_def frame_in_range_def
      split: option.splits jsnum.splits)

lemma inv_step:
  assumes "playback_inv t s" and "t \<le> t'"
  shows "playback_inv t' (step sz t' e s)"
proof (cases e)
  case (RunClick n_input confirmed)
  with inv_mono [OF assms] show ?thesis by (simp add: run_click_def inv_pause)
next
  case (RunSettle resp)
  with inv_mono [OF assms] show ?thesis
    by (auto simp: run_settle_def inv_load Let_def split: response.splits draw_result.splits)
next
  case (PlayClick n_input confirmed)
  with inv_mono [OF assms] inv_toggle [OF assms] show ?thesis
    by (auto simp: play_click_def run_click_def inv_pause split: option.splits)
next
  case ResetClick
  with inv_reset [OF assms] show ?thesis by (simp add: fst_reset_click)
next
  case AnimFrame
  with inv_tick [OF assms] show ?thesis by (simp add: fst_animate)
qed

lemma run_from_inv:
  assumes "playback_inv t s" and "clock_ok t evs"
  shows "\<exists>t'. playback_inv t' (run_from s evs)"
  using assms
proof (induction evs arbitrary: t s)
  case Nil
  then show ?case by auto
next
  case (Cons ev evs)
  obtain now sz e where ev: "ev = (now, sz, e)"
    by (cases ev) auto
  from Cons.prems ev have "playback_inv now (step sz now e s)" and "clock_ok now evs"
    by (simp_all add: inv_step)
  then have "\<exists>t'. playback_inv t' (run_from (step sz now e s) evs)"
    by (rule Cons.IH)
  with ev show ?case by simp
qed

text \<open>
  Claim C3, as it holds of the script. After any run from the initial state whose clock
  readings never decrease (runs settling, clicks on run, play/pause and reset, passes of
  \<open>animate\<close>), the frame index is an index of the frame list, whenever the dataset then
  loaded has at least two frames.
\<close>

theorem run_keeps_frame_in_range:
  assumes "clock_ok t evs"
    and "animData (run_from init_state evs) = Some d" and "2 \<le> length (positions d)"
  shows "frame_in_range (run_from init_state evs) d"
proof -
  have "playback_inv t init_state"
    by (simp add: playback_inv_def init_state_def)
  from run_from_inv [OF this assms(1)] obtain t'
    where "playback_inv t' (run_from init_state evs)" by blast
  with assms(2,3) show ?thesis
    by (simp add: playback_inv_def)
qed

theorem run_keeps_frame_in_range_witness:
  "clock_ok 0 [(0, 400, RunSettle scenario1_response), (50000, 400, AnimFrame),
               (50000, 400, PlayClick None False), (70000, 400, PlayClick None False),
               (80000, 400, AnimFrame)] \<and>
   animData (run_from init_state
              [(0, 400, RunSettle scenario1_response), (50000, 400, AnimFrame),
               (50000, 400, PlayClick None False), (70000, 400, PlayClick None False),
               (80000, 400, AnimFrame)]) = Some scenario1 \<and>
   2 \<le> length (positions scenario1) \<and>
   frame_in_range (run_from init_state
              [(0, 400, RunSettle scenario1_response), (50000, 400, AnimFrame),
               (50000, 400, PlayClick None False), (70000, 400, PlayClick None False),
               (80000, 400, AnimFrame)]) scenario1"
proof -
  let ?evs = "[(0, 400, RunSettle scenario1_response), (50000, 400, AnimFrame),
               (50000, 400, PlayClick None False), (70000, 400, PlayClick None False),
               (80000, 400, AnimFrame)]"
  have c: "clock_ok 0 ?evs" by simp
  have a: "animData (run_from init_state ?evs) = Some scenario1"
    by (simp add: fst_animate tick_other animData_play_click scenario1_response_def
        fst_run_settle_success load_def)
  have l: "2 \<le> length (positions scenario1)"
    by (simp add: scenario1_def)
  from run_keeps_frame_in_range [OF c a l] c a l show ?thesis
    by simp
qed

text \<open>A pass at a clock reading before the playback origin: the dataset of the scenario
  is loaded at clock reading 1000 with frame index 0, and a pass at clock reading 500
  sets the frame index to \<open>-1\<close>.\<close>

theorem pass_before_origin_leaves_range:
  "animData loaded_at_1000 = Some scenario1 \<and> frame_in_range loaded_at_1000 scenario1 \<and>
   frameIdx (step 400 500 AnimFrame loaded_at_1000) = Fin (- 1) \<and>
   \<not> frame_in_range (step 400 500 AnimFrame loaded_at_1000) scenario1"
proof -
  have c: "\<lceil>- (1 / 120 :: real)\<rceil> = 0"
    by (simp add: ceiling_eq_iff)
  have f: "\<lfloor>- (1 / 40 :: real)\<rfloor> = - 1"
    by (simp add: floor_eq_iff)
  show ?thesis
    by (simp add: fst_animate loaded_at_1000_eq load_def tick_def Let_def js_sub_def
        simDuration_def js_trunc_def scenario1_def frame_in_range_def init_state_def c f)
qed

text \<open>With a single frame, resuming divides by \<open>positions.length - 1 = 0\<close>: after a
  pause at clock reading 10 and a resume at 20 the playback origin is \<open>NaN\<close>, and so is
  the frame index after the pass at 30.\<close>

lemma single_frame_resume_is_nan:
  "frameIdx (step 400 30 AnimFrame
              (step 400 20 (PlayClick None False)
                (step 400 10 (PlayClick None False) single_frame_loaded))) = NaN"
proof -
  have s: "single_frame_loaded = load 0 (Some single_frame) init_state"
    by (simp add: single_frame_loaded_def fst_run_settle_success)
  have a: "animData single_frame_loaded = Some single_frame"
    by (simp add: s load_def)
  have a': "animData (toggle 10 single_frame single_frame_loaded) = Some single_frame"
    by (simp add: s load_def toggle_def Let_def)
  show ?thesis
    by (simp add: fst_animate fst_play_click_loaded [OF a] fst_play_click_loaded [OF a'])
       (simp add: s load_def toggle_def tick_def Let_def js_sub_def simDuration_def
          signed_inf_def single_frame_def init_state_def)
qed

section \<open>Runs that fail\<close>

lemma run_settle_failure:
  "failure_message resp = Some m \<Longrightarrow>
     run_settle resp now sz s = (s, [AlertText (''Error: '' @ m)], Drawn [])"
  by (cases resp) (auto simp: run_settle_def split: if_splits)

text \<open>
  Claim C4, as it holds of the script. When a run whose request is sent fails (the request is rejected,
  the response is not \<open>ok\<close>, or the payload is not a success), the click has already
  set \<open>isPlaying\<close> to false; the handlers of the failure then show one alert,
  \<open>Error: \<close> followed by the message, and change nothing: the dataset, the frame index
  and the playback origin are as before the click, and playback is paused.
\<close>

theorem failed_run_pauses_only:
  assumes "failure_message resp = Some m" and "\<not> needs_confirm n_input \<or> confirmed"
  shows "run_click n_input confirmed s = (s\<lparr>isPlaying := False\<rparr>, Some n_input)
         \<and> run_settle resp now sz (s\<lparr>isPlaying := False\<rparr>) =
             (s\<lparr>isPlaying := False\<rparr>, [AlertText (''Error: '' @ m)], Drawn [])
         \<and> run_settle resp now sz s = (s, [AlertText (''Error: '' @ m)], Drawn [])"
  using assms by (auto simp: run_click_def run_settle_failure)

theorem failed_run_pauses_only_witness:
  "failure_message invalid_mass = Some ''invalid mass'' \<and>
   \<not> needs_confirm (Some 2) \<and>
   run_click (Some 2) False loaded_at_0 = (loaded_at_0\<lparr>isPlaying := False\<rparr>, Some (Some 2)) \<and>
   run_settle invalid_mass 20 400 (loaded_at_0\<lparr>isPlaying := False\<rparr>) =
     (loaded_at_0\<lparr>isPlaying := False\<rparr>, [AlertText ''Error: invalid mass''], Drawn [])"
proof -
  have m: "failure_message invalid_mass = Some ''invalid mass''"
    by (simp add: invalid_mass_def)
  have g: "\<not> needs_confirm (Some 2) \<or> False"
    by (simp add: needs_confirm_def)
  from failed_run_pauses_only [OF m g, of loaded_at_0 20 400] m g show ?thesis
    by (simp add: needs_confirm_def)
qed

text \<open>The scenario is playing; a run is clicked at clock reading 10 and fails with
  \<open>invalid mass\<close> at 20. The state is not the one before the request: playback has
  stopped.\<close>

theorem failed_run_stops_playback:
  "isPlaying loaded_at_0 \<and>
   \<not> isPlaying (step 400 20 (RunSettle invalid_mass)
                  (step 400 10 (RunClick (Some 2) False) loaded_at_0)) \<and>
   step 400 20 (RunSettle invalid_mass) (step 400 10 (RunClick (Some 2) False) loaded_at_0)
     \<noteq> loaded_at_0"
proof -
  have "step 400 20 (RunSettle invalid_mass) (step 400 10 (RunClick (Some 2) False) loaded_at_0)
          = loaded_at_0\<lparr>isPlaying := False\<rparr>"
    by (simp add: run_click_def needs_confirm_def run_settle_def invalid_mass_def)
  moreover have "isPlaying loaded_at_0"
    by (simp add: loaded_at_0_eq load_def)
  ultimately show ?thesis
    by (auto dest: arg_cong [where f = isPlaying])
qed

section \<open>Runs that succeed\<close>

lemma drawGrid_plain: "\<exists>g. drawGrid w h scale False = Some g"
  by (simp add: drawGrid_def Let_def)

lemma drawFrame_no_frames:
  assumes "animData s = Some d" and "positions d = []" and "frameIdx s = Fin 0"
  shows "drawFrame s w h = Thrown TypeError"
proof -
  have st: "startTrace s = Fin 0"
    using assms by (simp add: startTrace_def js_sub_def traceLen_def)
  obtain g where g: "drawGrid w h (frame_scale w d) False = Some g"
    using drawGrid_plain by blast
  show ?thesis
    using assms g by (simp add: drawFrame_def Let_def st)
qed

text \<open>
  Claim C5, as it holds of the script. The success handler of a run stores the payload's dataset, sets
  the frame index to 0, \<open>isPlaying\<close> to true and the playback origin to the clock
  reading, whatever the dataset: the frame list is not checked. With an empty frame list
  the drawing that follows throws, and the error is shown in an alert.
\<close>

theorem load_any_dataset:
  assumes "success data"
  shows "fst (run_settle (Json data) now sz s) =
           s\<lparr>animData := animation_data data, frameIdx := Fin 0, isPlaying := True,
             playStartTime := Fin now\<rparr>
         \<and> (\<forall>d. animation_data data = Some d \<and> positions d = [] \<longrightarrow>
               snd (run_settle (Json data) now sz s) =
                 ([AlertThrown TypeError], Thrown TypeError))"
proof (intro conjI allI impI)
  show "fst (run_settle (Json data) now sz s) =
           s\<lparr>animData := animation_data data, frameIdx := Fin 0, isPlaying := True,
             playStartTime := Fin now\<rparr>"
    using assms by (simp add: fst_run_settle_success load_def)
next
  fix d assume d: "animation_data data = Some d \<and> positions d = []"
  let ?s = "load now (animation_data data) s"
  have "drawFrame ?s (real sz) (real sz) = Thrown TypeError"
    using d by (intro drawFrame_no_frames [where d = d]) (simp_all add: load_def)
  then have "render ?s sz = Thrown TypeError"
    by (simp add: render_def)
  with assms show "snd (run_settle (Json data) now sz s) =
      ([AlertThrown TypeError], Thrown TypeError)"
    by (simp add: run_settle_def Let_def)
qed

theorem load_any_dataset_witness:
  "success \<lparr>success = True, message = None, animation_data = Some no_frames\<rparr> \<and>
   positions no_frames = [] \<and>
   fst (run_settle (Json \<lparr>success = True, message = None, animation_data = Some no_frames\<rparr>)
          90 400 loaded_at_0) =
     loaded_at_0\<lparr>animData := Some no_frames, frameIdx := Fin 0, isPlaying := True,
                 playStartTime := Fin 90\<rparr> \<and>
   snd (run_settle (Json \<lparr>success = True, message = None, animation_data = Some no_frames\<rparr>)
          90 400 loaded_at_0) =
     ([AlertThrown TypeError], Thrown TypeError)"
proof -
  let ?data = "\<lparr>success = True, message = None, animation_data = Some no_frames\<rparr>"
  have a: "success ?data" by simp
  have p: "positions no_frames = []" by (simp add: no_frames_def)
  from load_any_dataset [OF a, of 90 400 loaded_at_0] p show ?thesis
    by simp
qed

text \<open>Before any run, a success payload whose dataset has no frame: the state is changed
  and an alert is shown.\<close>

theorem load_without_frames_changes_state:
  "run_settle (Json \<lparr>success = True, message = None, animation_data = Some no_frames\<rparr>)
       7 400 init_state
     = (init_state\<lparr>animData := Some no_frames, frameIdx := Fin 0, isPlaying := True,
                    playStartTime := Fin 7\<rparr>,
        [AlertThrown TypeError], Thrown TypeError)
   \<and> init_state\<lparr>animData := Some no_frames, frameIdx := Fin 0, isPlaying := True,
                    playStartTime := Fin 7\<rparr> \<noteq> init_state"
proof -
  let ?s = "load 7 (Some no_frames) init_state"
  have "drawFrame ?s (real 400) (real 400) = Thrown TypeError"
    by (intro drawFrame_no_frames [where d = no_frames]) (simp_all add: load_def no_frames_def)
  then have "render ?s 400 = Thrown TypeError"
    by (simp add: render_def)
  then show ?thesis
    by (auto simp: run_settle_def Let_def load_def init_state_def
        dest: arg_cong [where f = isPlaying])
qed

section \<open>Play without a dataset\<close>

text \<open>
  Claim C10, as it holds of the script. Without a dataset, a click on play/pause does what a click on run
  does and nothing else: when more than 20 bodies are asked for and the confirmation is
  declined, nothing changes and no request is sent; otherwise \<open>isPlaying\<close> is set to
  false and a request is sent.
\<close>

theorem play_without_dataset_runs:
  assumes "animData s = None"
  shows "play_click now n_input confirmed s = run_click n_input confirmed s
         \<and> play_click now n_input confirmed s =
             (if needs_confirm n_input \<and> \<not> confirmed then (s, None)
              else (s\<lparr>isPlaying := False\<rparr>, Some n_input))"
  using assms by (simp add: play_click_def run_click_def)

theorem play_without_dataset_runs_witness:
  "animData init_state = None \<and>
   play_click 5 (Some 2) False init_state = run_click (Some 2) False init_state \<and>
   play_click 5 (Some 2) False init_state = (init_state\<lparr>isPlaying := False\<rparr>, Some (Some 2))"
proof -
  have a: "animData init_state = None"
    by (simp add: init_state_def)
  from play_without_dataset_runs [OF a, of 5 "Some 2" False] a show ?thesis
    by (simp add: needs_confirm_def run_click_def)
qed

text \<open>25 bodies asked for, confirmation declined: no request is sent.\<close>

theorem play_without_dataset_declined:
  "animData init_state = None \<and> play_click 5 (Some 25) False init_state = (init_state, None)"
  by (simp add: play_click_def run_click_def needs_confirm_def init_state_def)

section \<open>Coordinate mapper\<close>

text \<open>
  Claim C7. For finite arguments \<open>getScreenPos\<close> returns \<open>x * scale + w/2\<close> and
  \<open>-y * scale + h/2\<close>. For the scenario (spatial limit 2) on a canvas of 400 by 400 the
  scale is 100, and the body of frame 2, at \<open>(-1, 0)\<close>, is mapped to \<open>(100, 200)\<close>.
\<close>

theorem getScreenPos_maps:
  "getScreenPos (Fin x) (Fin y) (Fin scale) (Fin w) (Fin h) =
     (Fin (x * scale + w / 2), Fin (- y * scale + h / 2))
   \<and> frame_scale 400 scenario1 = Fin 100
   \<and> array_get (positions scenario1) (Fin 2) = Some [- 1, 0]
   \<and> body_pos [- 1, 0] 0 (frame_scale 400 scenario1) 400 400 = (Fin 100, Fin 200)"
  by (simp add: getScreenPos_def frame_scale_def scenario1_def body_pos_def frame_get_def)


section \<open>Scene renderer\<close>

lemma trace_loop_in_range:
  assumes "0 \<le> a" and "a \<le> f + 1" and "f < int (length ps)"
  shows "trace_loop ps e sc w h st (Fin (of_int f)) (Fin (of_int a)) =
           Inr (map (\<lambda>j. case body_pos (ps ! nat j) e sc w h of
                            (x, y) \<Rightarrow> if Fin (of_int j) = st then MoveTo x y else LineTo x y)
                  [a..f])"
  using assms
proof (induction "nat (f + 1 - a)" arbitrary: a)
  case 0
  then have "a = f + 1" by simp
  then show ?case
    by (subst trace_loop.simps) simp
next
  case (Suc k)
  then have af: "a \<le> f" by linarith
  have k: "k = nat (f + 1 - (a + 1))" using Suc.hyps(2) by linarith
  have ih: "trace_loop ps e sc w h st (Fin (of_int f)) (Fin (of_int (a + 1))) =
           Inr (map (\<lambda>j. case body_pos (ps ! nat j) e sc w h of
                            (x, y) \<Rightarrow> if Fin (of_int j) = st then MoveTo x y else LineTo x y)
                  [a + 1..f])"
    using Suc.prems af by (intro Suc.hyps(1) [OF k]) simp_all
  have u: "[a..f] = a # [a + 1..f]" using af by (simp add: upto_rec1)
  show ?case
    apply (subst trace_loop.simps)
    using af ih Suc.prems by (simp add: u del: trace_loop.simps)
qed

lemma polyline_upto:
  "map (\<lambda>j. case pt j of (x, y) \<Rightarrow> if j = a then MoveTo x y else LineTo x y) [a..f]
     = polyline (map pt [a..f])"
proof (cases "a \<le> f")
  case False
  then show ?thesis by simp
next
  case True
  then have u: "[a..f] = a # [a + 1..f]" by (simp add: upto_rec1)
  have "map (\<lambda>j. case pt j of (x, y) \<Rightarrow> if j = a then MoveTo x y else LineTo x y) [a + 1..f]
          = map (\<lambda>(x, y). LineTo x y) (map pt [a + 1..f])"
    by (auto split: prod.splits)
  then show ?thesis
    by (simp add: u split: prod.splits)
qed

lemma length_polyline: "length (polyline pts) = length pts"
  by (cases pts) auto

lemma startTrace_in_range:
  "frameIdx s = Fin (of_int f) \<Longrightarrow> startTrace s = Fin (of_int (max 0 (f - 100)))"
  by (simp add: startTrace_def js_sub_def traceLen_def max_def)

lemma rods_loop_Some:
  "rods_loop (Some p) sc w h ks =
     Inr (map (\<lambda>k. case body_pos p (2 * int k) sc w h of (x, y) \<Rightarrow> LineTo x y) ks)"
  by (induction ks) simp_all

lemma masses_loop_Some:
  "masses_loop (Some p) sc w h ks =
     Inr (concat (map (\<lambda>k. case body_pos p (2 * int k) sc w h of
                            (x, y) \<Rightarrow> drawCircle x y 6 ''#333'') ks))"
  by (induction ks) simp_all

lemma drawGrid_plain_grid: "drawGrid w h scale False = Some (plain_grid w h)"
  by (simp add: drawGrid_def plain_grid_def Let_def)

lemma well_formed_frame:
  assumes "well_formed d" and "j < length (positions d)"
  shows "length (positions d ! j) = 2 * n d"
  using assms by (simp add: well_formed_def list_all_length)

text \<open>On a frame that has the entries \<open>2k\<close> and \<open>2k + 1\<close>, the script reads them and maps
  them as the coordinate mapper does.\<close>

lemma body_pos_entries:
  assumes "2 * k + 1 < length p"
  shows "body_pos p (2 * int k) sc w h = spec_point (p ! (2 * k)) (p ! (2 * k + 1)) sc w h"
proof -
  have i: "nat (2 * int k) = 2 * k" "nat (2 * int k + 1) = 2 * k + 1"
    by simp_all
  have "frame_get p (2 * int k) = Fin (p ! (2 * k))"
    using assms by (simp add: frame_get_def i)
  moreover have "frame_get p (2 * int k + 1) = Fin (p ! (2 * k + 1))"
    using assms by (simp add: frame_get_def i)
  ultimately show ?thesis
    by (simp add: body_pos_def getScreenPos_def spec_point_def)
qed

lemma body_pos_body_at:
  assumes "well_formed d" and "0 \<le> j" and "j < int (length (positions d))" and "k < n d"
  shows "body_pos (positions d ! nat j) (2 * int k) sc w h = body_at d j k sc w h"
proof -
  have "length (positions d ! nat j) = 2 * n d"
    using assms by (intro well_formed_frame) simp_all
  with assms(4) have "2 * k + 1 < length (positions d ! nat j)"
    by simp
  then show ?thesis
    unfolding body_at_def by (rule body_pos_entries)
qed

lemma endIdx_last_body: "well_formed d \<Longrightarrow> endIdx d = 2 * int (n d - 1)"
  by (simp add: endIdx_def well_formed_def of_nat_diff)

lemma trace_in_range:
  assumes "frameIdx s = Fin (of_int f)" and "0 \<le> f" and "f < int (length (positions d))"
    and "well_formed d"
  shows "trace_loop (positions d) (endIdx d) sc w h (startTrace s) (frameIdx s) (startTrace s)
           = Inr (polyline (map (\<lambda>j. body_at d j (n d - 1) sc w h) (trace_frames f)))"
proof -
  let ?a = "max 0 (f - 100)"
  have "trace_loop (positions d) (endIdx d) sc w h (Fin (of_int ?a)) (Fin (of_int f))
          (Fin (of_int ?a))
        = Inr (polyline (map (\<lambda>j. body_pos (positions d ! nat j) (endIdx d) sc w h) [?a..f]))"
    using assms(2,3) by (subst trace_loop_in_range) (simp_all add: polyline_upto)
  moreover have "map (\<lambda>j. body_pos (positions d ! nat j) (endIdx d) sc w h) [?a..f]
        = map (\<lambda>j. body_at d j (n d - 1) sc w h) [?a..f]"
  proof (rule map_cong [OF refl])
    fix j assume "j \<in> set [?a..f]"
    then have j: "0 \<le> j" "j < int (length (positions d))"
      using assms(3) by auto
    have "n d - 1 < n d"
      using assms(4) by (simp add: well_formed_def)
    from body_pos_body_at [OF assms(4) j this]
    show "body_pos (positions d ! nat j) (endIdx d) sc w h = body_at d j (n d - 1) sc w h"
      by (simp add: endIdx_last_body [OF assms(4)])
  qed
  ultimately show ?thesis
    unfolding startTrace_in_range [OF assms(1)] assms(1) trace_frames_def by simp
qed

lemma drawFrame_in_range:
  assumes "animData s = Some d" and "frameIdx s = Fin (of_int f)"
    and "0 \<le> f" and "f < int (length (positions d))" and "well_formed d"
  shows "drawFrame s w h = Drawn (scene_cmds d f (frame_scale w d) w h)"
proof -
  note tr = trace_in_range [OF assms(2-5), of "frame_scale w d" w h]
  have pos: "array_get (positions d) (frameIdx s) = Some (positions d ! nat f)"
    using assms(2-4) by simp
  have b: "body_pos (positions d ! nat f) (2 * int k) sc w h = body_at d f k sc w h"
    if "k \<in> set [0..<n d]" for k sc
    using that by (intro body_pos_body_at assms) simp
  have rods: "map (\<lambda>k. case body_pos (positions d ! nat f) (2 * int k) (frame_scale w d) w h of
                         (x, y) \<Rightarrow> LineTo x y) [0..<n d]
      = map (\<lambda>k. case body_at d f k (frame_scale w d) w h of (x, y) \<Rightarrow> LineTo x y) [0..<n d]"
    by (rule map_cong [OF refl]) (simp add: b)
  have masses: "map (\<lambda>k. case body_pos (positions d ! nat f) (2 * int k) (frame_scale w d) w h of
                         (x, y) \<Rightarrow> drawCircle x y 6 ''#333'') [0..<n d]
      = map (\<lambda>k. case body_at d f k (frame_scale w d) w h of
                         (x, y) \<Rightarrow> drawCircle x y 6 ''#333'') [0..<n d]"
    by (rule map_cong [OF refl]) (simp add: b)
  show ?thesis
    using assms(1)
    by (simp add: drawFrame_def Let_def tr pos drawGrid_plain_grid rods_loop_Some
        masses_loop_Some scene_cmds_def rods masses del: trace_loop.simps)
qed

text \<open>
  Claim C8. With a well-formed dataset loaded and the frame index \<open>f\<close> in range, the scene
  renderer draws the scene, whose trace is one connected line through the positions of the
  last body, the entries \<open>2(n - 1)\<close> and \<open>2(n - 1) + 1\<close> of the frames from
  \<open>max(0, f - 100)\<close> to \<open>f\<close> inclusive: no frame before 0 or after \<open>f\<close>, and
  \<open>min(f, 100) + 1\<close> points.
\<close>

theorem trace_of_last_body:
  assumes "animData s = Some d" and "frameIdx s = Fin (of_int f)"
    and "0 \<le> f" and "f < int (length (positions d))" and "well_formed d"
  shows "drawFrame s w h = Drawn (scene_cmds d f (frame_scale w d) w h)
         \<and> trace_loop (positions d) (endIdx d) (frame_scale w d) w h (startTrace s)
               (frameIdx s) (startTrace s)
             = Inr (polyline (map (\<lambda>j. body_at d j (n d - 1) (frame_scale w d) w h)
                      (trace_frames f)))
         \<and> body_at d j (n d - 1) (Fin sc) w h =
             (Fin (positions d ! nat j ! (2 * (n d - 1)) * sc + w / 2),
              Fin (- (positions d ! nat j ! (2 * (n d - 1) + 1)) * sc + h / 2))
         \<and> set (trace_frames f) = {max 0 (f - 100)..f}
         \<and> length (polyline (map (\<lambda>j. body_at d j (n d - 1) (frame_scale w d) w h)
                      (trace_frames f))) = nat (min f 100) + 1"
proof (intro conjI)
  show "drawFrame s w h = Drawn (scene_cmds d f (frame_scale w d) w h)"
    using assms by (rule drawFrame_in_range)
  show "trace_loop (positions d) (endIdx d) (frame_scale w d) w h (startTrace s)
               (frameIdx s) (startTrace s)
             = Inr (polyline (map (\<lambda>j. body_at d j (n d - 1) (frame_scale w d) w h)
                      (trace_frames f)))"
    using assms(2-5) by (rule trace_in_range)
  show "body_at d j (n d - 1) (Fin sc) w h =
             (Fin (positions d ! nat j ! (2 * (n d - 1)) * sc + w / 2),
              Fin (- (positions d ! nat j ! (2 * (n d - 1) + 1)) * sc + h / 2))"
    by (simp add: body_at_def spec_point_def)
  show "set (trace_frames f) = {max 0 (f - 100)..f}"
    by (simp add: trace_frames_def)
  show "length (polyline (map (\<lambda>j. body_at d j (n d - 1) (frame_scale w d) w h)
                      (trace_frames f))) = nat (min f 100) + 1"
    using assms(3) by (simp add: length_polyline trace_frames_def)
qed

theorem trace_of_last_body_witness:
  "animData paused_at_120 = Some long_run \<and> frameIdx paused_at_120 = Fin (of_int 120) \<and>
   (0::int) \<le> 120 \<and> (120::int) < int (length (positions long_run)) \<and>
   well_formed long_run \<and>
   drawFrame paused_at_120 400 400 =
     Drawn (scene_cmds long_run 120 (frame_scale 400 long_run) 400 400) \<and>
   body_at long_run 120 (n long_run - 1) (Fin 100) 400 400 = (Fin 300, Fin 300) \<and>
   set (trace_frames 120) = {20..120} \<and>
   length (polyline (map (\<lambda>j. body_at long_run j (n long_run - 1)
                                 (frame_scale 400 long_run) 400 400)
                      (trace_frames 120))) = 101"
proof -
  have a: "animData paused_at_120 = Some long_run"
    by (simp add: paused_at_120_eq)
  have b: "frameIdx paused_at_120 = Fin (of_int 120)"
    by (simp add: paused_at_120_eq)
  have c: "(0::int) \<le> 120" by simp
  have d: "(120::int) < int (length (positions long_run))"
    by (simp add: long_run_def)
  have e: "well_formed long_run"
    by (simp add: well_formed_def long_run_def list_all_iff)
  have p: "positions long_run ! 120 = [1, 0, 1, - 1]" "n long_run = 2"
    by (simp_all add: long_run_def)
  from trace_of_last_body [OF a b c d e, of 400 400 120 100] a b d e show ?thesis
    by (simp add: p del: trace_loop.simps)
qed

section \<open>Grid\<close>




text \<open>With a negative step the column loop of the minor grid, started left of the right
  edge, never returns: whenever it returns, it was not started so.\<close>

lemma grid_cols_Some_exits:
  assumes "grid_cols x w h stp acc = Some y"
  shows "\<not> (\<exists>r st. x = Fin r \<and> stp = Fin st \<and> st < 0 \<and> r < w)"
proof -
  note r = grid_cols.raw_induct
    [where P = "\<lambda>x w h stp acc y. \<not> (\<exists>r st. x = Fin r \<and> stp = Fin st \<and> st < 0 \<and> r < w)"
       and xa = "((((x, w), h), stp), acc)" and y = y, unfolded prod.case]
  show ?thesis
  proof (rule r)
    show "grid_cols x w h stp acc = Some y" by (rule assms)
  next
    fix g :: "jsnum \<Rightarrow> real \<Rightarrow> real \<Rightarrow> jsnum \<Rightarrow> cmd list \<Rightarrow> cmd list option"
    fix x w h stp acc xa
    assume ih: "\<And>w h stp acc b y. g w h stp acc b = Some y \<Longrightarrow>
             \<not> (\<exists>r st. w = Fin r \<and> acc = Fin st \<and> st < 0 \<and> r < h)"
      and body: "(if js_lt x (Fin w)
        then g (js_add x stp) w h stp (acc @ [MoveTo x (Fin 0), LineTo x (Fin h)])
        else Some acc) = Some xa"
    show "\<not> (\<exists>r st. x = Fin r \<and> stp = Fin st \<and> st < 0 \<and> r < w)"
    proof
      assume "\<exists>r st. x = Fin r \<and> stp = Fin st \<and> st < 0 \<and> r < w"
      then obtain r st where x: "x = Fin r" and st: "stp = Fin st"
        and neg: "st < 0" and lt: "r < w"
        by blast
      with body have "g (Fin (r + st)) w h (Fin st)
          (acc @ [MoveTo x (Fin 0), LineTo x (Fin h)]) = Some xa"
        by simp
      from ih [OF this] neg have "\<not> r + st < w" by simp
      with lt neg show False by simp
    qed
  qed
qed

lemma grid_cols_diverges:
  assumes "st < 0" and "x < w"
  shows "grid_cols (Fin x) w h (Fin st) acc = None"
proof (cases "grid_cols (Fin x) w h (Fin st) acc")
  case None
  then show ?thesis .
next
  case (Some y)
  from grid_cols_Some_exits [OF this] assms show ?thesis by blast
qed

lemma js_trunc_nonpos: "q \<le> 0 \<Longrightarrow> js_trunc q \<le> 0"
  by (auto simp: js_trunc_def ceiling_le_iff)

lemma js_rem_negative_divisor:
  assumes "st < 0" and "0 \<le> a"
  shows "\<exists>x. js_rem (Fin a) (Fin st) = Fin x \<and> x \<le> a"
proof -
  have "a / st \<le> 0" using assms by (simp add: divide_nonneg_neg)
  then have "real_of_int (js_trunc (a / st)) \<le> 0"
    using js_trunc_nonpos by simp
  then have "0 \<le> st * real_of_int (js_trunc (a / st))"
    using assms(1) by (simp add: mult_nonpos_nonpos)
  then have "a - st * real_of_int (js_trunc (a / st)) \<le> a" by simp
  moreover have "js_rem (Fin a) (Fin st) = Fin (a - st * real_of_int (js_trunc (a / st)))"
    using assms(1) by simp
  ultimately show ?thesis by blast
qed

lemma drawGrid_negative_scale_diverges:
  assumes "sc < 0" and "0 < w"
  shows "drawGrid w h (Fin sc) True = None"
proof -
  have t: "js_truthy (Fin sc)" using assms by simp
  have s5: "js_div (Fin sc) (Fin 5) = Fin (sc / 5)" by simp
  have ox: "js_div (Fin w) (Fin 2) = Fin (w / 2)" by simp
  have st: "sc / 5 < 0" using assms by simp
  have "0 \<le> w / 2" using assms by simp
  from js_rem_negative_divisor [OF st this] obtain x
    where x: "js_rem (Fin (w / 2)) (Fin (sc / 5)) = Fin x" and "x \<le> w / 2" by blast
  then have "x < w" using assms(2) by simp
  with st have g: "grid_cols (Fin x) w h (Fin (sc / 5)) [] = None"
    by (rule grid_cols_diverges)
  show ?thesis
    unfolding drawGrid_def Let_def
    by (simp only: t s5 ox x g simp_thms if_True option.case)
qed

text \<open>With an infinite scale on a canvas that is not empty the minor grid is one column
  and one row.\<close>

lemma drawGrid_infinite_scale:
  assumes "0 < w" and "0 < h"
  shows "\<exists>g. drawGrid w h PInf True = Some g"
proof -
  have c: "grid_cols (Fin (w / 2)) w h PInf [] =
             Some [MoveTo (Fin (w / 2)) (Fin 0), LineTo (Fin (w / 2)) (Fin h)]"
    using assms(1)
    by (subst grid_cols.simps, simp, subst grid_cols.simps, simp)
  have r: "grid_rows (Fin (h / 2)) w h PInf [] =
             Some [MoveTo (Fin 0) (Fin (h / 2)), LineTo (Fin w) (Fin (h / 2))]"
    using assms(2)
    by (subst grid_rows.simps, simp, subst grid_rows.simps, simp)
  show ?thesis
    by (simp add: drawGrid_def Let_def c r)
qed


section \<open>Trajectory renderer\<close>

lemma traj_loop_started:
  assumes "0 \<le> a" and "a \<le> f + 1" and "f < int (length ps)"
  shows "traj_loop ps i sc w h (Fin (of_int f)) True (Fin (of_int a)) =
           Inr (map (\<lambda>(x, y). LineTo x y) (map (\<lambda>j. body_pos (ps ! nat j) i sc w h) [a..f]))"
  using assms
proof (induction "nat (f + 1 - a)" arbitrary: a)
  case 0
  then have "a = f + 1" by simp
  then show ?case
    by (subst traj_loop.simps) simp
next
  case (Suc k)
  then have af: "a \<le> f" by linarith
  have k: "k = nat (f + 1 - (a + 1))" using Suc.hyps(2) by linarith
  have ih: "traj_loop ps i sc w h (Fin (of_int f)) True (Fin (of_int (a + 1))) =
           Inr (map (\<lambda>(x, y). LineTo x y) (map (\<lambda>j. body_pos (ps ! nat j) i sc w h) [a + 1..f]))"
    using Suc.prems af by (intro Suc.hyps(1) [OF k]) simp_all
  have u: "[a..f] = a # [a + 1..f]" using af by (simp add: upto_rec1)
  show ?case
    apply (subst traj_loop.simps)
    using af ih Suc.prems by (simp add: u split: prod.splits del: traj_loop.simps)
qed

lemma traj_loop_in_range:
  assumes "0 \<le> f" and "f < int (length ps)"
  shows "traj_loop ps i sc w h (Fin (of_int f)) False (Fin 0) =
           Inr (polyline (map (\<lambda>j. body_pos (ps ! nat j) i sc w h) [0..f]))"
proof -
  have r: "traj_loop ps i sc w h (Fin (of_int f)) True (Fin (of_int 1)) =
           Inr (map (\<lambda>(x, y). LineTo x y) (map (\<lambda>j. body_pos (ps ! nat j) i sc w h) [1..f]))"
    using assms by (intro traj_loop_started) simp_all
  have u: "[0..f] = 0 # [1..f]" using assms by (simp add: upto_rec1)
  have ne: "ps \<noteq> []" using assms by auto
  show ?thesis
    apply (subst traj_loop.simps)
    using assms r ne by (simp add: u split: prod.splits del: traj_loop.simps)
qed

lemma graph_loop_in_range:
  assumes "0 \<le> f" and "f < int (length (positions d))" and "well_formed d"
    and "set ks \<subseteq> {0..<n d}"
  shows "graph_loop (positions d) sc w h (Fin (of_int f)) ks =
           Inr (concat (map (trajectory_cmds d f sc w h) ks))"
  using assms(4)
proof (induction ks)
  case Nil
  show ?case by simp
next
  case (Cons k ks)
  then have k: "k < n d" and ks: "set ks \<subseteq> {0..<n d}"
    by simp_all
  have m: "map (\<lambda>j. body_pos (positions d ! nat j) (2 * int k) sc w h) [0..f]
          = map (\<lambda>j. body_at d j k sc w h) [0..f]"
  proof (rule map_cong [OF refl])
    fix j assume "j \<in> set [0..f]"
    then have "0 \<le> j" "j < int (length (positions d))"
      using assms(2) by auto
    with assms(3) k show "body_pos (positions d ! nat j) (2 * int k) sc w h = body_at d j k sc w h"
      by (intro body_pos_body_at)
  qed
  have "traj_loop (positions d) (2 * int k) sc w h (Fin (of_int f)) False (Fin 0)
          = Inr (polyline (map (\<lambda>j. body_at d j k sc w h) [0..f]))"
    unfolding traj_loop_in_range [OF assms(1,2)] m by (rule refl)
  with Cons.IH [OF ks] show ?case
    by (simp add: trajectory_cmds_def del: traj_loop.simps)
qed


lemma drawGraph_in_range:
  assumes "animData s = Some d" and "frameIdx s = Fin (of_int f)"
    and "0 \<le> f" and "f < int (length (positions d))" and "well_formed d"
    and "drawGrid w h (graph_scale w h d) True = Some grid"
  shows "drawGraph s w h = Drawn (graph_cmds d f (graph_scale w h d) w h grid)"
  using assms(1,2,6) graph_loop_in_range [OF assms(3-5), of "[0..<n d]"]
  by (simp add: drawGraph_def Let_def graph_cmds_def)

text \<open>So with a negative spatial limit, on a canvas that is not empty, the trajectory
  renderer never returns.\<close>

lemma drawGraph_negative_limit_hangs:
  assumes "animData s = Some d" and "limit d < 0" and "0 < w" and "0 < h"
  shows "drawGraph s w h = Hung"
proof -
  have "0 < min w h / 2" using assms by simp
  then have "min w h / 2 / limit d < 0"
    using assms(2) by (rule divide_pos_neg)
  moreover have "graph_scale w h d = Fin (min w h / 2 / limit d)"
    using assms(2) by (simp add: graph_scale_def)
  ultimately obtain sc where sc: "graph_scale w h d = Fin sc" "sc < 0" by blast
  from drawGrid_negative_scale_diverges [OF sc(2) assms(3)]
  have "drawGrid w h (Fin sc) True = None" .
  with assms(1) sc(1) show ?thesis
    by (simp add: drawGraph_def Let_def)
qed




section \<open>Degenerate spatial limit\<close>

lemma zero_limit_loaded_eq: "zero_limit_loaded = load 0 (Some zero_limit) init_state"
  by (simp add: zero_limit_loaded_def fst_run_settle_success)

lemma neg_limit_loaded_eq: "neg_limit_loaded = load 0 (Some neg_limit) init_state"
  by (simp add: neg_limit_loaded_def fst_run_settle_success)

lemma frame_scale_degenerate:
  assumes "limit d \<le> 0" and "0 < w"
  shows "degenerate_scale d (frame_scale w d)"
proof (cases "limit d = 0")
  case True
  with assms(2) show ?thesis
    by (simp add: degenerate_scale_def frame_scale_def signed_inf_def)
next
  case False
  with assms(1) have l: "limit d < 0" by simp
  have "0 < w / 2" using assms(2) by simp
  then have "w / 2 / limit d < 0"
    using l by (rule divide_pos_neg)
  with False show ?thesis
    by (simp add: degenerate_scale_def frame_scale_def)
qed

lemma graph_scale_zero_limit:
  assumes "limit d = 0" and "0 < w" and "0 < h"
  shows "graph_scale w h d = PInf"
  using assms by (simp add: graph_scale_def signed_inf_def)

lemma graph_scale_degenerate:
  assumes "limit d \<le> 0" and "0 < w" and "0 < h"
  shows "degenerate_scale d (graph_scale w h d)"
proof (cases "limit d = 0")
  case True
  with assms(2,3) show ?thesis
    by (simp add: degenerate_scale_def graph_scale_zero_limit)
next
  case False
  with assms(1) have l: "limit d < 0" by simp
  have "0 < min w h / 2" using assms(2,3) by simp
  then have "min w h / 2 / limit d < 0"
    using l by (rule divide_pos_neg)
  with False show ?thesis
    by (simp add: degenerate_scale_def graph_scale_def)
qed

lemma graph_scale_negative:
  assumes "js_lt (graph_scale w h d) (Fin 0)" and "0 < w" and "0 < h"
  shows "limit d < 0"
proof (rule ccontr)
  assume "\<not> limit d < 0"
  then consider "limit d = 0" | "0 < limit d" by linarith
  then show False
  proof cases
    case 1
    then have "graph_scale w h d = PInf"
      using assms(2,3) by (rule graph_scale_zero_limit)
    with assms(1) show False by simp
  next
    case 2
    with assms(2,3) have "0 < min w h / 2 / limit d" by simp
    moreover have "graph_scale w h d = Fin (min w h / 2 / limit d)"
      using 2 by (simp add: graph_scale_def)
    ultimately show False using assms(1) by simp
  qed
qed

text \<open>
  Claim C6, as it holds of the script. With a well-formed dataset whose spatial limit is
  zero or negative, the frame index in range and canvases that are not empty, neither pass
  tests the limit, skips its drawing or takes the scale to be 1. Both scales are what the
  division by the limit leaves, an infinity for a zero limit and a negative number for a
  negative one. The scene renderer issues the calls of the scene with the coordinates
  computed from that scale. The trajectory renderer issues its grid and its lines with the
  coordinates computed from the scale \<open>Infinity\<close>, and does not return with a negative
  scale.
\<close>

theorem degenerate_limit_is_not_guarded:
  assumes "animData s = Some d" and "frameIdx s = Fin (of_int f)"
    and "0 \<le> f" and "f < int (length (positions d))" and "well_formed d"
    and "0 < w" and "0 < h" and "limit d \<le> 0"
  shows "degenerate_scale d (frame_scale w d)
         \<and> degenerate_scale d (graph_scale w h d)
         \<and> drawFrame s w h = Drawn (scene_cmds d f (frame_scale w d) w h)
         \<and> (graph_scale w h d = PInf \<longrightarrow>
               (\<exists>grid. drawGrid w h PInf True = Some grid
                  \<and> drawGraph s w h = Drawn (graph_cmds d f PInf w h grid)))
         \<and> (js_lt (graph_scale w h d) (Fin 0) \<longrightarrow> drawGraph s w h = Hung)"
proof (intro conjI impI)
  show "degenerate_scale d (frame_scale w d)"
    using assms(8,6) by (rule frame_scale_degenerate)
  show "degenerate_scale d (graph_scale w h d)"
    using assms(8,6,7) by (rule graph_scale_degenerate)
  show "drawFrame s w h = Drawn (scene_cmds d f (frame_scale w d) w h)"
    using assms(1-5) by (rule drawFrame_in_range)
next
  assume sc: "graph_scale w h d = PInf"
  from drawGrid_infinite_scale [OF assms(6,7)] obtain grid
    where g: "drawGrid w h PInf True = Some grid"
    by blast
  then have "drawGrid w h (graph_scale w h d) True = Some grid"
    unfolding sc .
  from drawGraph_in_range [OF assms(1-5) this]
  have "drawGraph s w h = Drawn (graph_cmds d f PInf w h grid)"
    unfolding sc .
  with g show "\<exists>grid. drawGrid w h PInf True = Some grid
                  \<and> drawGraph s w h = Drawn (graph_cmds d f PInf w h grid)"
    by blast
next
  assume "js_lt (graph_scale w h d) (Fin 0)"
  then have "limit d < 0"
    using assms(6,7) by (rule graph_scale_negative)
  with assms(1) show "drawGraph s w h = Hung"
    using assms(6,7) by (rule drawGraph_negative_limit_hangs)
qed

text \<open>The datasets with the spatial limits 0 and \<open>-2\<close>, loaded and at frame 0, on canvases
  of 400 by 400.\<close>

theorem degenerate_limit_is_not_guarded_witness:
  "animData zero_limit_loaded = Some zero_limit \<and>
   frameIdx zero_limit_loaded = Fin (of_int 0) \<and>
   (0::int) < int (length (positions zero_limit)) \<and> well_formed zero_limit \<and>
   limit zero_limit = 0 \<and>
   frame_scale 400 zero_limit = PInf \<and> graph_scale 400 400 zero_limit = PInf \<and>
   drawFrame zero_limit_loaded 400 400 = Drawn (scene_cmds zero_limit 0 PInf 400 400) \<and>
   (\<exists>grid. drawGrid 400 400 PInf True = Some grid
      \<and> drawGraph zero_limit_loaded 400 400 =
          Drawn (graph_cmds zero_limit 0 PInf 400 400 grid)) \<and>
   animData neg_limit_loaded = Some neg_limit \<and>
   frameIdx neg_limit_loaded = Fin (of_int 0) \<and>
   (0::int) < int (length (positions neg_limit)) \<and> well_formed neg_limit \<and>
   limit neg_limit = - 2 \<and>
   frame_scale 400 neg_limit = Fin (- 100) \<and> graph_scale 400 400 neg_limit = Fin (- 100) \<and>
   drawFrame neg_limit_loaded 400 400 = Drawn (scene_cmds neg_limit 0 (Fin (- 100)) 400 400) \<and>
   drawGraph neg_limit_loaded 400 400 = Hung"
proof -
  have a: "animData zero_limit_loaded = Some zero_limit"
    and b: "frameIdx zero_limit_loaded = Fin (of_int 0)"
    by (simp_all add: zero_limit_loaded_eq load_def)
  have c: "(0::int) < int (length (positions zero_limit))"
    and e: "well_formed zero_limit" and l: "limit zero_limit = 0"
    by (simp_all add: zero_limit_def well_formed_def)
  have a': "animData neg_limit_loaded = Some neg_limit"
    and b': "frameIdx neg_limit_loaded = Fin (of_int 0)"
    by (simp_all add: neg_limit_loaded_eq load_def)
  have c': "(0::int) < int (length (positions neg_limit))"
    and e': "well_formed neg_limit" and l': "limit neg_limit = - 2"
    by (simp_all add: neg_limit_def well_formed_def)
  have z: "(0::int) \<le> 0" and p: "(0::real) < 400"
    by simp_all
  have l0: "limit zero_limit \<le> 0" using l by simp
  have l0': "limit neg_limit \<le> 0" using l' by simp
  have sc: "frame_scale 400 zero_limit = PInf" "graph_scale 400 400 zero_limit = PInf"
    by (simp_all add: frame_scale_def graph_scale_def l signed_inf_def)
  have sc': "frame_scale 400 neg_limit = Fin (- 100)"
    "graph_scale 400 400 neg_limit = Fin (- 100)"
    by (simp_all add: frame_scale_def graph_scale_def l')
  have n: "js_lt (Fin (- 100)) (Fin 0)"
    by simp
  note t = degenerate_limit_is_not_guarded [OF a b z c e p p l0, unfolded sc]
  note t' = degenerate_limit_is_not_guarded [OF a' b' z c' e' p p l0', unfolded sc']
  from t have t1: "drawFrame zero_limit_loaded 400 400 =
      Drawn (scene_cmds zero_limit 0 PInf 400 400)"
    and t2: "\<exists>grid. drawGrid 400 400 PInf True = Some grid
      \<and> drawGraph zero_limit_loaded 400 400 =
          Drawn (graph_cmds zero_limit 0 PInf 400 400 grid)"
    by blast+
  from t' have t3: "drawFrame neg_limit_loaded 400 400 =
      Drawn (scene_cmds neg_limit 0 (Fin (- 100)) 400 400)"
    by blast
  from t' n have t4: "drawGraph neg_limit_loaded 400 400 = Hung"
    by blast
  show ?thesis
    using a b c e l sc t1 t2 a' b' c' e' l' sc' t3 t4 by blast
qed

text \<open>The dataset with spatial limit 0 on canvases of 400 by 400: both scales are
  \<open>Infinity\<close>, and both passes draw, at coordinates that are not finite.\<close>

theorem zero_limit_is_drawn:
  "limit zero_limit = 0 \<and>
   frame_scale 400 zero_limit = PInf \<and> graph_scale 400 400 zero_limit = PInf \<and>
   drawFrame zero_limit_loaded 400 400 =
     Drawn
      [ClearRect (Fin 0) (Fin 0) (Fin 400) (Fin 400), Save,
       FillStyle ''#ffffff'', FillRect (Fin 0) (Fin 0) (Fin 400) (Fin 400),
       StrokeStyle ''#eee'', LineWidth 1, BeginPath, MoveTo (Fin 0) (Fin 200),
       LineTo (Fin 400) (Fin 200), MoveTo (Fin 200) (Fin 0),
       LineTo (Fin 200) (Fin 400), Stroke, Restore,
       StrokeStyle ''rgba(255, 0, 0, 0.6)'', LineWidth 2, BeginPath,
       MoveTo PInf NaN, Stroke, LineWidth 3, StrokeStyle ''black'', BeginPath,
       MoveTo (Fin 200) (Fin 200), LineTo PInf NaN, Stroke, FillStyle ''black'',
       BeginPath, Arc (Fin 200) (Fin 200) 4, Fill, FillStyle ''#333'',
       BeginPath, Arc PInf NaN 6, Fill] \<and>
   drawGraph zero_limit_loaded 400 400 =
     Drawn
      [Save, FillStyle ''#ffffff'',
       FillRect (Fin 0) (Fin 0) (Fin 400) (Fin 400), StrokeStyle ''#f0f0f0'',
       LineWidth 1, BeginPath, MoveTo (Fin 200) (Fin 0),
       LineTo (Fin 200) (Fin 400), MoveTo (Fin 0) (Fin 200),
       LineTo (Fin 400) (Fin 200), Stroke, StrokeStyle ''#ccc'', LineWidth 1,
       BeginPath, MoveTo (Fin 0) (Fin 200), LineTo (Fin 400) (Fin 200),
       MoveTo (Fin 200) (Fin 0), LineTo (Fin 200) (Fin 400), Stroke,
       StrokeStyle ''#000'', StrokeRect (Fin 0) (Fin 0) (Fin 400) (Fin 400),
       Restore, LineWidth (5 / 2), LineCap ''round'', LineJoin ''round'',
       StrokeStyle ''#1f77b4'', BeginPath, MoveTo PInf NaN, Stroke]"
proof -
  have sc: "frame_scale 400 zero_limit = PInf" "graph_scale 400 400 zero_limit = PInf"
    by (simp_all add: frame_scale_def graph_scale_def zero_limit_def signed_inf_def)
  have s: "animData zero_limit_loaded = Some zero_limit"
    "frameIdx zero_limit_loaded = Fin (of_int 0)"
    by (simp_all add: zero_limit_loaded_eq load_def)
  have p: "positions zero_limit = [[1, 0], [0, 1], [- 1, 0]]" "n zero_limit = 1"
    by (simp_all add: zero_limit_def)
  have wf: "well_formed zero_limit"
    by (simp add: well_formed_def p)
  have bp: "spec_point 1 0 PInf 400 400 = (PInf, NaN)"
    by (simp add: spec_point_def signed_inf_def)
  have f: "drawFrame zero_limit_loaded 400 400 =
             Drawn (scene_cmds zero_limit 0 (frame_scale 400 zero_limit) 400 400)"
    using s by (rule drawFrame_in_range) (simp_all add: p wf)
  have g: "drawGrid 400 400 PInf True =
    Some [Save, FillStyle ''#ffffff'',
       FillRect (Fin 0) (Fin 0) (Fin 400) (Fin 400), StrokeStyle ''#f0f0f0'',
       LineWidth 1, BeginPath, MoveTo (Fin 200) (Fin 0),
       LineTo (Fin 200) (Fin 400), MoveTo (Fin 0) (Fin 200),
       LineTo (Fin 400) (Fin 200), Stroke, StrokeStyle ''#ccc'', LineWidth 1,
       BeginPath, MoveTo (Fin 0) (Fin 200), LineTo (Fin 400) (Fin 200),
       MoveTo (Fin 200) (Fin 0), LineTo (Fin 200) (Fin 400), Stroke,
       StrokeStyle ''#000'', StrokeRect (Fin 0) (Fin 0) (Fin 400) (Fin 400),
       Restore]"
    by (simp add: drawGrid_def Let_def grid_cols.simps grid_rows.simps)
  have gr: "drawGraph zero_limit_loaded 400 400 =
      Drawn (graph_cmds zero_limit 0 (graph_scale 400 400 zero_limit) 400 400
        [Save, FillStyle ''#ffffff'',
       FillRect (Fin 0) (Fin 0) (Fin 400) (Fin 400), StrokeStyle ''#f0f0f0'',
       LineWidth 1, BeginPath, MoveTo (Fin 200) (Fin 0),
       LineTo (Fin 200) (Fin 400), MoveTo (Fin 0) (Fin 200),
       LineTo (Fin 400) (Fin 200), Stroke, StrokeStyle ''#ccc'', LineWidth 1,
       BeginPath, MoveTo (Fin 0) (Fin 200), LineTo (Fin 400) (Fin 200),
       MoveTo (Fin 200) (Fin 0), LineTo (Fin 200) (Fin 400), Stroke,
       StrokeStyle ''#000'', StrokeRect (Fin 0) (Fin 0) (Fin 400) (Fin 400),
       Restore])"
    using s by (rule drawGraph_in_range) (simp_all add: p wf sc g)
  show ?thesis
    apply (intro conjI)
    subgoal by (simp add: zero_limit_def)
    subgoal by (rule sc)
    subgoal by (rule sc)
    subgoal
      by (simp add: f scene_cmds_def plain_grid_def sc p trace_frames_def body_at_def bp
          drawCircle_def)
    subgoal
      by (simp add: gr graph_cmds_def sc p trajectory_cmds_def body_at_def bp colors_def)
    done
qed

end
